theory Spec2Isabelle
  imports Main "HOL-Library.Multiset"
begin

section \<open>JavaScript strings\<close>

text \<open>
  A string is a list of characters. The identifiers, file names and checksum files the
  actions handle are ASCII text, and the model covers that range: case conversion maps
  the 26 letters and leaves every other character alone, and white space is the six ASCII
  white-space characters of the language.
\<close>

definition upper_letters :: string where
  "upper_letters = ''ABCDEFGHIJKLMNOPQRSTUVWXYZ''"

definition lower_letters :: string where
  "lower_letters = ''abcdefghijklmnopqrstuvwxyz''"

definition toLowerCase_char :: "char \<Rightarrow> char" where
  "toLowerCase_char c =
     (case map_of (zip upper_letters lower_letters) c of Some d \<Rightarrow> d | None \<Rightarrow> c)"

definition toUpperCase_char :: "char \<Rightarrow> char" where
  "toUpperCase_char c =
     (case map_of (zip lower_letters upper_letters) c of Some d \<Rightarrow> d | None \<Rightarrow> c)"

definition toLowerCase :: "string \<Rightarrow> string" where
  "toLowerCase s = map toLowerCase_char s"

definition toUpperCase :: "string \<Rightarrow> string" where
  "toUpperCase s = map toUpperCase_char s"

text \<open>\<open>a || b\<close> on a possibly undefined string: the empty string is falsy as well.\<close>

definition or_else :: "string option \<Rightarrow> string \<Rightarrow> string" where
  "or_else a b = (case a of None \<Rightarrow> b | Some v \<Rightarrow> if v = [] then b else v)"

section \<open>Plain objects\<close>

text \<open>
  An object literal inherits from \<open>Object.prototype\<close>. Reading \<open>obj[k]\<close> finds the own
  entry of the object under \<open>k\<close> and otherwise what the prototype has under that name: one
  of its built-in functions, or the prototype itself under \<open>__proto__\<close>. None of these
  inherited values is a string and each of them is truthy; the table keeps an inherited
  value by the text it turns into where a string is needed, in a template literal or as a
  property key.
\<close>

definition Object_prototype :: "(string \<times> string) list" where
  "Object_prototype =
     [(''constructor'', ''function Object() { [native code] }''),
      (''__defineGetter__'', ''function __defineGetter__() { [native code] }''),
      (''__defineSetter__'', ''function __defineSetter__() { [native code] }''),
      (''hasOwnProperty'', ''function hasOwnProperty() { [native code] }''),
      (''__lookupGetter__'', ''function __lookupGetter__() { [native code] }''),
      (''__lookupSetter__'', ''function __lookupSetter__() { [native code] }''),
      (''isPrototypeOf'', ''function isPrototypeOf() { [native code] }''),
      (''propertyIsEnumerable'', ''function propertyIsEnumerable() { [native code] }''),
      (''toString'', ''function toString() { [native code] }''),
      (''valueOf'', ''function valueOf() { [native code] }''),
      (''__proto__'', ''[object Object]''),
      (''toLocaleString'', ''function toLocaleString() { [native code] }'')]"

datatype 'v lookup = Own 'v | Inherited string | Undefined

definition get_prop :: "(string \<times> 'v) list \<Rightarrow> string \<Rightarrow> 'v lookup" where
  "get_prop obj k =
     (case map_of obj k of
        Some v \<Rightarrow> Own v
      | None \<Rightarrow> (case map_of Object_prototype k of Some t \<Rightarrow> Inherited t | None \<Rightarrow> Undefined))"

text \<open>
  What an expression declared as a string holds at run time: a string, or an inherited
  object that a lookup let through.
\<close>

datatype jsval = Str string | Obj string

fun to_string :: "jsval \<Rightarrow> string" where
  "to_string (Str s) = s"
| "to_string (Obj t) = t"

text \<open>\<open>obj[k] || b\<close> for an object of strings.\<close>

definition lookup_or :: "string lookup \<Rightarrow> string \<Rightarrow> jsval" where
  "lookup_or a b =
     (case a of
        Own v \<Rightarrow> if v = [] then Str b else Str v
      | Inherited t \<Rightarrow> Obj t
      | Undefined \<Rightarrow> Str b)"

section \<open>update-homebrew-tap: platform names\<close>

definition PLATFORM_ALIASES :: "(string \<times> string) list" where
  "PLATFORM_ALIASES =
     [(''darwin-aarch64'', ''darwin-arm64''),
      (''darwin-x86_64'', ''darwin-x64''),
      (''darwin-amd64'', ''darwin-x64''),
      (''macos-arm64'', ''darwin-arm64''),
      (''macos-x64'', ''darwin-x64''),
      (''macos-amd64'', ''darwin-x64''),
      (''linux-aarch64'', ''linux-arm64''),
      (''linux-x86_64'', ''linux-x64''),
      (''linux-amd64'', ''linux-x64'')]"

definition normalizePlatform :: "string \<Rightarrow> jsval" where
  "normalizePlatform platform =
     lookup_or (get_prop PLATFORM_ALIASES (toLowerCase platform)) (toLowerCase platform)"

text \<open>The normalized platform as a property key and in a log line.\<close>

abbreviation normalized_key :: "string \<Rightarrow> string" where
  "normalized_key platform \<equiv> to_string (normalizePlatform platform)"

section \<open>More string operations\<close>

definition startsWith :: "string \<Rightarrow> string \<Rightarrow> bool" where
  "startsWith s p = (take (length p) s = p)"

definition endsWith :: "string \<Rightarrow> string \<Rightarrow> bool" where
  "endsWith s p = (length p \<le> length s \<and> drop (length s - length p) s = p)"

text \<open>\<open>s.includes(p)\<close>: \<open>p\<close> occurs in \<open>s\<close> as a contiguous substring.\<close>

fun includes_str :: "string \<Rightarrow> string \<Rightarrow> bool" where
  "includes_str [] p = (p = [])"
| "includes_str (c # cs) p = (startsWith (c # cs) p \<or> includes_str cs p)"

definition isSpace :: "char \<Rightarrow> bool" where
  "isSpace c = (c \<in> set [CHR 0x09, CHR 0x0A, CHR 0x0B, CHR 0x0C, CHR 0x0D, CHR '' ''])"

definition trim :: "string \<Rightarrow> string" where
  "trim s = rev (dropWhile isSpace (rev (dropWhile isSpace s)))"

text \<open>\<open>version.replace(/^v/, "")\<close>: one leading \<open>v\<close> is removed, if there is one.\<close>

definition strip_v :: "string \<Rightarrow> string" where
  "strip_v version =
     (case version of [] \<Rightarrow> [] | c # cs \<Rightarrow> if c = CHR ''v'' then cs else c # cs)"

text \<open>A possibly undefined string used as a condition: undefined and the empty string are falsy.\<close>

definition truthy :: "string option \<Rightarrow> bool" where
  "truthy v = (case v of None \<Rightarrow> False | Some s \<Rightarrow> s \<noteq> [])"

text \<open>Interpolating a number into a template string prints it in decimal.\<close>

definition digit_char :: "nat \<Rightarrow> char" where
  "digit_char d = ''0123456789'' ! (d mod 10)"

fun show_nat :: "nat \<Rightarrow> string" where
  "show_nat n = (if n < 10 then [digit_char n] else show_nat (n div 10) @ [digit_char (n mod 10)])"

declare show_nat.simps [simp del]

text \<open>
  The checksum pattern \<open>/^([a-f0-9]{64})/i\<close>: the first 64 characters are hexadecimal digits
  of either case; the group is those 64 characters.
\<close>

definition isHexDigit :: "char \<Rightarrow> bool" where
  "isHexDigit c = (c \<in> set ''0123456789abcdefABCDEF'')"

definition match_sha256 :: "string \<Rightarrow> string option" where
  "match_sha256 s =
     (if 64 \<le> length s \<and> list_all isHexDigit (take 64 s) then Some (take 64 s) else None)"

text \<open>
  POSIX \<open>path.basename\<close> and \<open>path.extname\<close> of Node: trailing slashes are dropped and the
  last segment is taken; the extension starts at the last dot of that segment, unless the
  dot is its first character or the segment is \<open>..\<close>.
\<close>

definition basename :: "string \<Rightarrow> string" where
  "basename p =
     rev (takeWhile (\<lambda>c. c \<noteq> CHR ''/'') (dropWhile (\<lambda>c. c = CHR ''/'') (rev p)))"

definition extname :: "string \<Rightarrow> string" where
  "extname p =
     (let b = basename p;
          ext = takeWhile (\<lambda>c. c \<noteq> CHR ''.'') (rev b);
          stem = drop (Suc (length ext)) (rev b)
      in if CHR ''.'' \<notin> set b \<or> stem = [] \<or> b = ''..'' then []
         else CHR ''.'' # rev ext)"

text \<open>
  Objects used as dictionaries keep their string keys in insertion order: \<open>obj[k] = v\<close>
  overwrites the entry of an existing key where it stands and appends a new key at the
  end. (Keys that are canonical array indices are enumerated first by the language; no
  function below depends on where such a key stands.)
\<close>

fun set_prop :: "string \<Rightarrow> 'v \<Rightarrow> (string \<times> 'v) list \<Rightarrow> (string \<times> 'v) list" where
  "set_prop k v [] = [(k, v)]"
| "set_prop k v (e # es) = (if fst e = k then (k, v) # es else e # set_prop k v es)"

text \<open>
  Storing a string under \<open>__proto__\<close> reaches the setter of the prototype, which ignores
  a value that is not an object: no entry is made.
\<close>

definition assign_str :: "string \<Rightarrow> string \<Rightarrow> (string \<times> string) list \<Rightarrow> (string \<times> string) list" where
  "assign_str k v obj = (if k = ''__proto__'' then obj else set_prop k v obj)"

section \<open>The outside world\<close>

text \<open>
  Network, file system, URL parser and digest are collaborators: the functions below take
  them as a \<open>world\<close>. An operation that throws is \<open>Inl\<close> of its message.
\<close>

datatype response =
  Response (ok: bool) (status: nat) (statusText: string) (body: "string + string")

datatype HashAlgorithm = Sha256 | Sha512 | Md5

record world =
  fetch :: "string \<Rightarrow> string + response"
  readFile :: "string \<Rightarrow> string + string"
  stat_size :: "string \<Rightarrow> string + nat"
  pathname :: "string \<Rightarrow> string + string"
  glob :: "string \<Rightarrow> string list"
  digest :: "HashAlgorithm \<Rightarrow> string \<Rightarrow> string"

text \<open>
  What a run does besides returning a value, in order: the lines it logs and the requests
  it makes to the world.
\<close>

datatype event =
    Debug string | Info string | Warning string
  | Fetched string | FileRead string | FileHashed string | FileStat string | BufferHashed string

definition algorithm_name :: "HashAlgorithm \<Rightarrow> string" where
  "algorithm_name a = (case a of Sha256 \<Rightarrow> ''sha256'' | Sha512 \<Rightarrow> ''sha512'' | Md5 \<Rightarrow> ''md5'')"

section \<open>update-homebrew-tap: assets and formula context\<close>

record AssetInfo =
  url :: string
  sha256 :: "string option"
  filename :: "string option"

type_synonym Assets = "(string \<times> AssetInfo) list"

record FormulaContext =
  name :: string
  version :: string
  versionClean :: string
  description :: string
  homepage :: string
  license :: string
  binaryName :: string
  privateRepo :: bool
  assets :: Assets
  darwinArm64 :: "AssetInfo option"
  darwinX64 :: "AssetInfo option"
  darwinAmd64 :: "AssetInfo option"
  linuxArm64 :: "AssetInfo option"
  linuxX64 :: "AssetInfo option"
  linuxAmd64 :: "AssetInfo option"
  macosAssets :: "(string \<times> AssetInfo) list"
  linuxAssets :: "(string \<times> AssetInfo) list"

text \<open>
  \<open>fetchSha256\<close>: every failure (transport exception, non-2xx status, unreadable body,
  content that is no checksum) ends in \<open>undefined\<close>; nothing is thrown.
\<close>

definition fetchSha256 :: "world \<Rightarrow> string \<Rightarrow> string option \<times> event list" where
  "fetchSha256 w u =
     (let sha256Url = u @ ''.sha256'';
          evs = [Debug (''Fetching SHA256 from '' @ sha256Url), Fetched sha256Url]
      in case fetch w sha256Url of
           Inl err \<Rightarrow> (None, evs @ [Debug (''Failed to fetch SHA256: '' @ err)])
         | Inr r \<Rightarrow>
             if \<not> ok r then
               (None, evs @ [Debug (''SHA256 file not found at '' @ sha256Url @ '', status: ''
                                     @ show_nat (status r))])
             else
               (case body r of
                  Inl err \<Rightarrow> (None, evs @ [Debug (''Failed to fetch SHA256: '' @ err)])
                | Inr content \<Rightarrow>
                    (case match_sha256 (trim content) of
                       Some m \<Rightarrow> (Some (toLowerCase m), evs @ [Debug (''Found SHA256: '' @ m)])
                     | None \<Rightarrow>
                         (None, evs @ [Warning (''Invalid SHA256 format in '' @ sha256Url
                                                @ '': '' @ content)]))))"

text \<open>
  The body of the loop of \<open>processAssets\<close> for one entry: the normalized platform as the
  text it has as a property key and in the log lines, the asset stored under it and what
  was logged and fetched on the way. (That key is never \<open>__proto__\<close>, so the store is
  always an ordinary one.)
\<close>

definition processAsset :: "world \<Rightarrow> string \<times> AssetInfo \<Rightarrow> (string \<times> AssetInfo) \<times> event list" where
  "processAsset w entry =
     (let platform = fst entry; info = snd entry;
          normalizedPlatform = to_string (normalizePlatform platform)
      in if \<not> truthy (sha256 info) \<and> url info \<noteq> [] then
           (let r = fetchSha256 w (url info)
            in ((normalizedPlatform, info\<lparr>sha256 := fst r\<rparr>),
                [Info (''Fetching SHA256 for '' @ normalizedPlatform @ ''...'')] @ snd r
                @ (if \<not> truthy (fst r)
                   then [Warning (''Could not fetch SHA256 for '' @ normalizedPlatform
                                  @ '', formula may be incomplete'')]
                   else [])))
         else ((normalizedPlatform, info), []))"

definition processAssets_step :: "world \<Rightarrow> Assets \<times> event list \<Rightarrow> string \<times> AssetInfo \<Rightarrow> Assets \<times> event list" where
  "processAssets_step w st entry =
     (let r = processAsset w entry
      in (set_prop (fst (fst r)) (snd (fst r)) (fst st), snd st @ snd r))"

text \<open>\<open>rawAssets\<close> is given as \<open>Object.entries\<close> enumerates it: its keys are distinct.\<close>

definition processAssets :: "world \<Rightarrow> Assets \<Rightarrow> Assets \<times> event list" where
  "processAssets w rawAssets = foldl (processAssets_step w) ([], []) rawAssets"

text \<open>
  The context reads the four well-known keys from the mapping; none of them is a name
  that objects inherit, so each read finds the own entry or nothing.
\<close>

definition buildContext ::
  "string \<Rightarrow> string \<Rightarrow> Assets \<Rightarrow> string \<Rightarrow> string \<Rightarrow> string \<Rightarrow> string \<Rightarrow> bool \<Rightarrow> FormulaContext" where
  "buildContext nm ver ast descr home lic binName priv =
     (let vClean = strip_v ver;
          mac = filter (\<lambda>e. startsWith (fst e) ''darwin-'' \<or> startsWith (fst e) ''macos-'') ast;
          lin = filter (\<lambda>e. \<not> (startsWith (fst e) ''darwin-'' \<or> startsWith (fst e) ''macos-'')
                            \<and> startsWith (fst e) ''linux-'') ast
      in \<lparr> name = nm,
           version = vClean,
           versionClean = vClean,
           description = descr,
           homepage = home,
           license = lic,
           binaryName = or_else (Some binName) nm,
           privateRepo = priv,
           assets = ast,
           darwinArm64 = map_of ast ''darwin-arm64'',
           darwinX64 = map_of ast ''darwin-x64'',
           darwinAmd64 = map_of ast ''darwin-x64'',
           linuxArm64 = map_of ast ''linux-arm64'',
           linuxX64 = map_of ast ''linux-x64'',
           linuxAmd64 = map_of ast ''linux-x64'',
           macosAssets = mac,
           linuxAssets = lin \<rparr>)"

section \<open>compute-checksums\<close>

type_synonym ChecksumResult = "(string \<times> string) list"

text \<open>\<open>hashFile\<close> streams the file through the digest; a read error rejects the promise.\<close>

definition hashFile :: "world \<Rightarrow> string \<Rightarrow> HashAlgorithm \<Rightarrow> string + string" where
  "hashFile w filepath algorithm =
     (case readFile w filepath of Inl err \<Rightarrow> Inl err | Inr content \<Rightarrow> Inr (digest w algorithm content))"

definition hashBuffer :: "world \<Rightarrow> string \<Rightarrow> HashAlgorithm \<Rightarrow> string" where
  "hashBuffer w buffer algorithm = digest w algorithm buffer"

definition readSha256File :: "world \<Rightarrow> string \<Rightarrow> string option \<times> event list" where
  "readSha256File w filepath =
     (let sha256Path = filepath @ ''.sha256''
      in (case readFile w sha256Path of
            Inl err \<Rightarrow> None
          | Inr content \<Rightarrow> map_option toLowerCase (match_sha256 (trim content)),
          [FileRead sha256Path]))"

definition downloadUrl :: "world \<Rightarrow> string \<Rightarrow> (string + string) \<times> event list" where
  "downloadUrl w u =
     (let evs = [Debug (''Downloading '' @ u), Fetched u]
      in case fetch w u of
           Inl err \<Rightarrow> (Inl err, evs)
         | Inr r \<Rightarrow>
             if \<not> ok r then
               (Inl (''Failed to download '' @ u @ '': '' @ show_nat (status r) @ '' ''
                     @ statusText r), evs)
             else (body r, evs))"

definition fetchSha256FromUrl :: "world \<Rightarrow> string \<Rightarrow> string option \<times> event list" where
  "fetchSha256FromUrl w u =
     (let sha256Url = u @ ''.sha256'';
          evs = [Debug (''Fetching SHA256 from '' @ sha256Url), Fetched sha256Url]
      in (case fetch w sha256Url of
            Inl err \<Rightarrow> None
          | Inr r \<Rightarrow>
              if \<not> ok r then None
              else (case body r of
                      Inl err \<Rightarrow> None
                    | Inr content \<Rightarrow> map_option toLowerCase (match_sha256 (trim content))),
          evs))"

text \<open>
  The loops of \<open>processFiles\<close> and \<open>processUrls\<close> have no handler of their own: an
  exception in one iteration leaves the loop, and the result built so far is lost. A run
  is \<open>Inr\<close> of the result and the events, or \<open>Inl\<close> of the message thrown and the events up
  to the throw.
\<close>

definition processFiles_step ::
  "world \<Rightarrow> HashAlgorithm \<Rightarrow> bool \<Rightarrow> ChecksumResult \<times> event list \<Rightarrow> string
     \<Rightarrow> string \<times> event list + ChecksumResult \<times> event list" where
  "processFiles_step w algorithm readSha256Files st filepath =
     (if endsWith filepath ''.sha256'' then Inr st
      else
        (let fname = basename filepath;
             r = (if readSha256Files then readSha256File w filepath else (None, []));
             evs = snd st @ snd r
         in if truthy (fst r) then
              Inr (assign_str fname (case fst r of Some h \<Rightarrow> h | None \<Rightarrow> []) (fst st),
                   evs @ [Info (''Read existing checksum for '' @ fname)])
            else
              (let evs' = evs @ [Info (''Computing '' @ algorithm_name algorithm @ '' for ''
                                       @ fname @ ''...''), FileHashed filepath]
               in case hashFile w filepath algorithm of
                    Inl err \<Rightarrow> Inl (err, evs')
                  | Inr h \<Rightarrow> Inr (assign_str fname h (fst st), evs'))))"

fun run_loop :: "('s \<Rightarrow> 'a \<Rightarrow> 'e + 's) \<Rightarrow> 's \<Rightarrow> 'a list \<Rightarrow> 'e + 's" where
  "run_loop step st [] = Inr st"
| "run_loop step st (x # xs) =
     (case step st x of Inl e \<Rightarrow> Inl e | Inr st' \<Rightarrow> run_loop step st' xs)"

definition processFiles ::
  "world \<Rightarrow> string \<Rightarrow> HashAlgorithm \<Rightarrow> bool \<Rightarrow> string \<times> event list + ChecksumResult \<times> event list" where
  "processFiles w patterns algorithm readSha256Files =
     run_loop (processFiles_step w algorithm readSha256Files) ([], []) (glob w patterns)"

definition processUrls_step ::
  "world \<Rightarrow> HashAlgorithm \<Rightarrow> bool \<Rightarrow> ChecksumResult \<times> event list \<Rightarrow> string
     \<Rightarrow> string \<times> event list + ChecksumResult \<times> event list" where
  "processUrls_step w algorithm readSha256Files st u =
     (case pathname w u of
        Inl err \<Rightarrow> Inl (err, snd st)
      | Inr p \<Rightarrow>
          (let fname = basename p;
               r = (if readSha256Files then fetchSha256FromUrl w u else (None, []));
               evs = snd st @ snd r
           in if truthy (fst r) then
                Inr (assign_str fname (case fst r of Some h \<Rightarrow> h | None \<Rightarrow> []) (fst st),
                     evs @ [Info (''Fetched existing checksum for '' @ fname)])
              else
                (let d = downloadUrl w u;
                     evs' = evs @ [Info (''Downloading and computing '' @ algorithm_name algorithm
                                         @ '' for '' @ fname @ ''...'')] @ snd d
                 in case fst d of
                      Inl err \<Rightarrow> Inl (err, evs')
                    | Inr buffer \<Rightarrow>
                        Inr (assign_str fname (hashBuffer w buffer algorithm) (fst st),
                             evs' @ [BufferHashed u]))))"

definition processUrls ::
  "world \<Rightarrow> string list \<Rightarrow> HashAlgorithm \<Rightarrow> bool \<Rightarrow> string \<times> event list + ChecksumResult \<times> event list" where
  "processUrls w urls algorithm readSha256Files =
     run_loop (processUrls_step w algorithm readSha256Files) ([], []) urls"

section \<open>release-notes: classification of assets\<close>

record PlatformPattern =
  os :: string
  osIcon :: string
  arch :: string
  archFull :: string
  variant :: "string option"
  displayName :: string

record Platform = PlatformPattern +
  platform_id :: string

datatype AssetType = Binary | Deb | Rpm

record Asset =
  asset_filename :: string
  platform :: Platform
  asset_type :: AssetType
  extension :: string
  asset_size :: "nat option"
  asset_sha256 :: "string option"

definition PLATFORM_PATTERNS :: "(string \<times> PlatformPattern) list" where
  "PLATFORM_PATTERNS =
     [(''linux-amd64-musl'',
         \<lparr> os = ''Linux'', osIcon = '''', arch = ''x86_64'', archFull = ''x86_64 (64-bit, static)'',
           variant = Some ''musl'', displayName = ''Linux x86_64 (static)'' \<rparr>),
      (''linux-amd64'',
         \<lparr> os = ''Linux'', osIcon = '''', arch = ''x86_64'', archFull = ''x86_64 (64-bit)'',
           variant = None, displayName = ''Linux x86_64'' \<rparr>),
      (''linux-aarch64'',
         \<lparr> os = ''Linux'', osIcon = '''', arch = ''aarch64'', archFull = ''ARM64'',
           variant = None, displayName = ''Linux ARM64'' \<rparr>),
      (''linux-arm64'',
         \<lparr> os = ''Linux'', osIcon = '''', arch = ''arm64'', archFull = ''ARM64'',
           variant = None, displayName = ''Linux ARM64'' \<rparr>),
      (''darwin-arm64'',
         \<lparr> os = ''macOS'', osIcon = '''', arch = ''arm64'', archFull = ''Apple Silicon (M1/M2/M3/M4)'',
           variant = None, displayName = ''macOS Apple Silicon'' \<rparr>),
      (''darwin-amd64'',
         \<lparr> os = ''macOS'', osIcon = '''', arch = ''x86_64'', archFull = ''Intel (64-bit)'',
           variant = None, displayName = ''macOS Intel'' \<rparr>),
      (''windows-amd64'',
         \<lparr> os = ''Windows'', osIcon = '''', arch = ''x86_64'', archFull = ''x86_64 (64-bit)'',
           variant = None, displayName = ''Windows x86_64'' \<rparr>),
      (''windows-aarch64'',
         \<lparr> os = ''Windows'', osIcon = '''', arch = ''arm64'', archFull = ''ARM64'',
           variant = None, displayName = ''Windows ARM64'' \<rparr>)]"

definition DEB_ARCH_MAP :: "(string \<times> string) list" where
  "DEB_ARCH_MAP = [(''amd64'', ''linux-amd64''), (''arm64'', ''linux-aarch64'')]"

definition RPM_ARCH_MAP :: "(string \<times> string) list" where
  "RPM_ARCH_MAP = [(''x86_64'', ''linux-amd64''), (''aarch64'', ''linux-aarch64'')]"

text \<open>\<open>{ id, ...platform }\<close>: the table entry with its key as \<open>id\<close>.\<close>

definition with_id :: "string \<Rightarrow> PlatformPattern \<Rightarrow> Platform" where
  "with_id i p =
     \<lparr> os = os p, osIcon = osIcon p, arch = arch p, archFull = archFull p,
       variant = variant p, displayName = displayName p, platform_id = i \<rparr>"

text \<open>
  The patterns \<open>/_([a-z0-9]+)\.deb$/\<close> and \<open>/\.([a-z0-9_]+)\.rpm$/\<close>: a match starts at a
  lead character, runs over one or more characters of the class and ends with the
  extension at the end of the string. \<open>first_match\<close> tries the start positions from the
  left, as the regular-expression engine does.
\<close>

definition isLowerAlnum :: "char \<Rightarrow> bool" where
  "isLowerAlnum c = (c \<in> set (lower_letters @ ''0123456789''))"

definition isLowerAlnumUnderscore :: "char \<Rightarrow> bool" where
  "isLowerAlnumUnderscore c = (c \<in> set (lower_letters @ ''0123456789_''))"

definition suffix_pattern :: "char \<Rightarrow> (char \<Rightarrow> bool) \<Rightarrow> string \<Rightarrow> string \<Rightarrow> string option" where
  "suffix_pattern lead cls ext t =
     (case t of
        [] \<Rightarrow> None
      | c # rest \<Rightarrow>
          if c = lead \<and> endsWith rest ext then
            (let a = take (length rest - length ext) rest
             in if a \<noteq> [] \<and> list_all cls a then Some a else None)
          else None)"

fun first_match :: "(string \<Rightarrow> 'a option) \<Rightarrow> string \<Rightarrow> 'a option" where
  "first_match m [] = m []"
| "first_match m (c # cs) =
     (case m (c # cs) of Some r \<Rightarrow> Some r | None \<Rightarrow> first_match m cs)"

definition debMatch :: "string \<Rightarrow> string option" where
  "debMatch b = first_match (suffix_pattern (CHR ''_'') isLowerAlnum ''.deb'') b"

definition rpmMatch :: "string \<Rightarrow> string option" where
  "rpmMatch b = first_match (suffix_pattern (CHR ''.'') isLowerAlnumUnderscore ''.rpm'') b"

text \<open>
  \<open>ARCH_MAP[arch]\<close> followed by the test \<open>platformId && PLATFORM_PATTERNS[platformId]\<close>.
  An inherited entry of the pattern table would be spread into a platform that has its
  id and no other field (written with empty texts); with the tables as they are this
  branch is never taken.
\<close>

definition pattern_of :: "string \<Rightarrow> Platform option" where
  "pattern_of platformId =
     (case get_prop PLATFORM_PATTERNS platformId of
        Own p \<Rightarrow> Some (with_id platformId p)
      | Inherited t \<Rightarrow>
          Some \<lparr> os = '''', osIcon = '''', arch = '''', archFull = '''', variant = None,
                 displayName = '''', platform_id = platformId \<rparr>
      | Undefined \<Rightarrow> None)"

definition arch_platform :: "(string \<times> string) list \<Rightarrow> string \<Rightarrow> Platform option" where
  "arch_platform arch_map a =
     (case get_prop arch_map a of
        Undefined \<Rightarrow> None
      | Own platformId \<Rightarrow> if platformId = [] then None else pattern_of platformId
      | Inherited t \<Rightarrow> pattern_of t)"

definition detectPlatform :: "string \<Rightarrow> string \<Rightarrow> Platform option" where
  "detectPlatform fname projectName =
     (let b = basename fname
      in case find (\<lambda>e. includes_str b (fst e)) PLATFORM_PATTERNS of
           Some e \<Rightarrow> Some (with_id (fst e) (snd e))
         | None \<Rightarrow>
             (case (case debMatch b of None \<Rightarrow> None | Some debArch \<Rightarrow> arch_platform DEB_ARCH_MAP debArch) of
                Some p \<Rightarrow> Some p
              | None \<Rightarrow>
                  (case rpmMatch b of None \<Rightarrow> None | Some rpmArch \<Rightarrow> arch_platform RPM_ARCH_MAP rpmArch)))"

definition getAssetType :: "string \<Rightarrow> AssetType" where
  "getAssetType fname =
     (if endsWith fname ''.deb'' then Deb else if endsWith fname ''.rpm'' then Rpm else Binary)"

definition getExtension :: "string \<Rightarrow> string" where
  "getExtension fname =
     (if endsWith fname ''.tar.gz'' then ''tar.gz''
      else if endsWith fname ''.tar.xz'' then ''tar.xz''
      else (let ext = extname fname in if startsWith ext ''.'' then drop 1 ext else ext))"

definition readSha256 :: "world \<Rightarrow> string \<Rightarrow> string option" where
  "readSha256 w assetPath =
     (case readFile w (assetPath @ ''.sha256'') of
        Inl err \<Rightarrow> None
      | Inr content \<Rightarrow> map_option toLowerCase (match_sha256 (trim content)))"

definition getFileSize :: "world \<Rightarrow> string \<Rightarrow> nat option" where
  "getFileSize w filepath = (case stat_size w filepath of Inl err \<Rightarrow> None | Inr n \<Rightarrow> Some n)"

text \<open>The loop of \<open>discoverAssets\<close>: the assets in discovery order and the warnings.\<close>

definition classify_step :: "world \<Rightarrow> string \<Rightarrow> Asset list \<times> event list \<Rightarrow> string \<Rightarrow> Asset list \<times> event list" where
  "classify_step w projectName st filepath =
     (if endsWith filepath ''.sha256'' then st
      else
        (let fname = basename filepath
         in case detectPlatform fname projectName of
              None \<Rightarrow> (fst st, snd st @ [Warning (''Could not detect platform for: '' @ fname)])
            | Some p \<Rightarrow>
                (fst st @ [\<lparr> asset_filename = fname, platform = p, asset_type = getAssetType fname,
                             extension = getExtension fname, asset_size = getFileSize w filepath,
                             asset_sha256 = readSha256 w filepath \<rparr>],
                 snd st @ [FileStat filepath, FileRead (filepath @ ''.sha256'')])))"

definition classified :: "world \<Rightarrow> string \<Rightarrow> string \<Rightarrow> Asset list \<times> event list" where
  "classified w assetsDir projectName =
     foldl (classify_step w projectName) ([], [])
       (glob w (assetsDir @ ''/**/*.tar.gz'' @ [CHR 0x0A] @ assetsDir @ ''/**/*.zip'' @ [CHR 0x0A]
                @ assetsDir @ ''/**/*.deb'' @ [CHR 0x0A] @ assetsDir @ ''/**/*.rpm''))"

definition platformOrder :: "string list" where
  "platformOrder =
     [''linux-amd64'', ''linux-amd64-musl'', ''linux-aarch64'', ''darwin-arm64'', ''darwin-amd64'',
      ''windows-amd64'']"

text \<open>\<open>indexOf\<close>, with \<open>-1\<close> for a missing element.\<close>

fun indexOf :: "string list \<Rightarrow> string \<Rightarrow> int" where
  "indexOf [] x = -1"
| "indexOf (y # ys) x = (if y = x then 0 else (let i = indexOf ys x in if i = -1 then -1 else i + 1))"

definition order_rank :: "Asset \<Rightarrow> int" where
  "order_rank a =
     (let i = indexOf platformOrder (platform_id (platform a)) in if i = -1 then 999 else i)"

definition compare_assets :: "Asset \<Rightarrow> Asset \<Rightarrow> int" where
  "compare_assets a b = order_rank a - order_rank b"

text \<open>
  \<open>Array.prototype.sort\<close> is stable: elements that compare equal keep their order. With a
  comparator that is a difference of ranks the sorted array is determined; it is computed
  here by stable insertion from the right.
\<close>

fun insert_by :: "('a \<Rightarrow> 'a \<Rightarrow> int) \<Rightarrow> 'a \<Rightarrow> 'a list \<Rightarrow> 'a list" where
  "insert_by cmp x [] = [x]"
| "insert_by cmp x (y # ys) = (if cmp x y \<le> 0 then x # y # ys else y # insert_by cmp x ys)"

definition sort_by :: "('a \<Rightarrow> 'a \<Rightarrow> int) \<Rightarrow> 'a list \<Rightarrow> 'a list" where
  "sort_by cmp xs = foldr (insert_by cmp) xs []"

definition discoverAssets :: "world \<Rightarrow> string \<Rightarrow> string \<Rightarrow> Asset list \<times> event list" where
  "discoverAssets w assetsDir projectName =
     (let r = classified w assetsDir projectName in (sort_by compare_assets (fst r), snd r))"

text \<open>
  The release context, as far as it is computed from the version and the assets; the
  dates (read from the clock) and the fixed install-command texts are left out.
\<close>

record ReleaseContext =
  release_version :: string
  release_versionClean :: string
  projectName :: string
  projectDescription :: string
  repository :: string
  repositoryUrl :: string
  isPrerelease :: bool
  isNightly :: bool
  binaries :: "Asset list"
  debPackages :: "Asset list"
  rpmPackages :: "Asset list"
  release_linuxAssets :: "Asset list"
  release_macosAssets :: "Asset list"
  windowsAssets :: "Asset list"
  hasFailures :: bool
  buildStatus :: "(string \<times> string option) list"
  workflowRunUrl :: "string option"

definition buildContext_release ::
  "world \<Rightarrow> string \<Rightarrow> string \<Rightarrow> string \<Rightarrow> string \<Rightarrow> string \<Rightarrow> bool
     \<Rightarrow> (string \<times> string option) list \<Rightarrow> string \<Rightarrow> ReleaseContext" where
  "buildContext_release w ver assetsDir projName projDescr repo prerelease bStatus workflowRunId =
     (let ast = fst (discoverAssets w assetsDir projName)
      in \<lparr> release_version = ver,
           release_versionClean = strip_v ver,
           projectName = projName,
           projectDescription = projDescr,
           repository = repo,
           repositoryUrl = ''https://github.com/'' @ repo,
           isPrerelease = prerelease,
           isNightly = (ver = ''nightly'' \<or> includes_str ver ''nightly''),
           binaries = filter (\<lambda>a. asset_type a = Binary) ast,
           debPackages = filter (\<lambda>a. asset_type a = Deb) ast,
           rpmPackages = filter (\<lambda>a. asset_type a = Rpm) ast,
           release_linuxAssets = filter (\<lambda>a. os (platform a) = ''Linux'') ast,
           release_macosAssets = filter (\<lambda>a. os (platform a) = ''macOS'') ast,
           windowsAssets = filter (\<lambda>a. os (platform a) = ''Windows'') ast,
           hasFailures = list_ex (\<lambda>e. snd e = Some ''failure'') bStatus,
           buildStatus = bStatus,
           workflowRunUrl =
             (if workflowRunId \<noteq> [] then
                Some (''https://github.com/'' @ repo @ ''/actions/runs/'' @ workflowRunId)
              else None) \<rparr>)"

section \<open>Example worlds and inputs\<close>

text \<open>A world with no network and no files.\<close>

definition offline :: world where
  "offline =
     \<lparr> fetch = (\<lambda>u. Inl ''network error''),
       readFile = (\<lambda>p. Inl ''ENOENT''),
       stat_size = (\<lambda>p. Inl ''ENOENT''),
       pathname = (\<lambda>u. Inr u),
       glob = (\<lambda>p. []),
       digest = (\<lambda>a s. ''0000'') \<rparr>"

text \<open>The requests a run made to the network, in order.\<close>

definition requests :: "event list \<Rightarrow> string list" where
  "requests evs = concat (map (\<lambda>e. case e of Fetched u \<Rightarrow> [u] | _ \<Rightarrow> []) evs)"

text \<open>Two spellings of the Intel macOS platform in one input, each with its checksum.\<close>

definition asset_a :: AssetInfo where
  "asset_a = \<lparr> url = ''https://example.com/a.tar.gz'', sha256 = Some ''aa'', filename = None \<rparr>"

definition asset_b :: AssetInfo where
  "asset_b = \<lparr> url = ''https://example.com/b.tar.gz'', sha256 = Some ''bb'', filename = Some ''b.tar.gz'' \<rparr>"

definition raw_collision :: Assets where
  "raw_collision = [(''darwin-amd64'', asset_a), (''darwin-x64'', asset_b)]"

text \<open>
  A world in which one archive can be downloaded and nothing else exists: every other
  request is answered with status 404.
\<close>

definition example_pathname :: "string \<Rightarrow> string + string" where
  "example_pathname u =
     (if startsWith u ''https://example.com/'' then Inr (drop 19 u) else Inl ''Invalid URL'')"

definition half_online :: world where
  "half_online =
     \<lparr> fetch = (\<lambda>u. if u = ''https://example.com/ok.tar.gz''
                      then Inr (Response True 200 ''OK'' (Inr ''content''))
                      else Inr (Response False 404 ''Not Found'' (Inr ''''))),
       readFile = (\<lambda>p. Inl ''ENOENT''),
       stat_size = (\<lambda>p. Inl ''ENOENT''),
       pathname = example_pathname,
       glob = (\<lambda>p. []),
       digest = (\<lambda>a s. ''digest of '' @ s) \<rparr>"

definition two_urls :: "string list" where
  "two_urls = [''https://example.com/missing.tar.gz'', ''https://example.com/ok.tar.gz'']"

definition asset_c :: AssetInfo where
  "asset_c = \<lparr> url = ''https://example.com/missing.tar.gz'', sha256 = None, filename = None \<rparr>"

definition raw_mixed :: Assets where
  "raw_mixed = [(''Linux-AMD64'', asset_c), (''darwin-arm64'', asset_a)]"

text \<open>
  A world with sidecar files, one in upper-case and the others in lower-case hexadecimal
  (one of them beside a sidecar, one beside a file named \<open>__proto__\<close>), and one sidecar on
  the network.
\<close>

definition upper_hash :: string where
  "upper_hash = ''DEADBEEFDEADBEEFDEADBEEFDEADBEEFDEADBEEFDEADBEEFDEADBEEFDEADBEEF''"

definition lower_hash :: string where
  "lower_hash = ''deadbeefdeadbeefdeadbeefdeadbeefdeadbeefdeadbeefdeadbeefdeadbeef''"

definition sidecars :: world where
  "sidecars =
     \<lparr> fetch = (\<lambda>u. if u = ''https://example.com/lower.tar.gz.sha256''
                      then Inr (Response True 200 ''OK'' (Inr (lower_hash @ ''  lower.tar.gz'' @ [CHR 0x0A])))
                      else Inr (Response False 404 ''Not Found'' (Inr ''''))),
       readFile = (\<lambda>p. if p = ''dist/upper.tar.gz.sha256''
                         then Inr (upper_hash @ ''  upper.tar.gz'' @ [CHR 0x0A])
                         else if p = ''dist/lower.tar.gz.sha256''
                         then Inr (lower_hash @ ''  lower.tar.gz'' @ [CHR 0x0A])
                         else if p = ''dist/lower.tar.gz.sha256.sha256''
                         then Inr (lower_hash @ ''  lower.tar.gz.sha256'' @ [CHR 0x0A])
                         else if p = ''dist/__proto__.sha256''
                         then Inr (lower_hash @ ''  __proto__'' @ [CHR 0x0A])
                         else if p = ''dist/upper.tar.gz'' then Inr ''content''
                         else Inl ''ENOENT''),
       stat_size = (\<lambda>p. Inl ''ENOENT''),
       pathname = example_pathname,
       glob = (\<lambda>p. []),
       digest = (\<lambda>a s. ''digest of '' @ s) \<rparr>"

text \<open>An asset is listed when its platform id is in the display order.\<close>

definition listed :: "Asset \<Rightarrow> bool" where
  "listed a = (platform_id (platform a) \<in> set platformOrder)"

text \<open>
  A release directory with four archives, found in an order that is not the display
  order, and one file that cannot be classified.
\<close>

definition release_dir :: world where
  "release_dir =
     \<lparr> fetch = (\<lambda>u. Inl ''network error''),
       readFile = (\<lambda>p. Inl ''ENOENT''),
       stat_size = (\<lambda>p. Inr 1024),
       pathname = example_pathname,
       glob = (\<lambda>p. [''dist/app-windows-aarch64.zip'', ''dist/app-darwin-arm64.tar.gz'', ''dist/notes.zip'',
                      ''dist/app-linux-arm64.tar.gz'', ''dist/app-linux-amd64.tar.gz'']),
       digest = (\<lambda>a s. ''digest of '' @ s) \<rparr>"

section \<open>Properties of the platform normalizer\<close>

lemmas lower_defs = toLowerCase_def toLowerCase_char_def upper_letters_def lower_letters_def

lemmas normalize_defs =
  normalizePlatform_def lookup_or_def get_prop_def PLATFORM_ALIASES_def Object_prototype_def

lemma toLowerCase_char_idem: "toLowerCase_char (toLowerCase_char c) = toLowerCase_char c"
  by (simp add: toLowerCase_char_def upper_letters_def lower_letters_def)

lemma toLowerCase_char_upper: "toLowerCase_char (toUpperCase_char c) = toLowerCase_char c"
  by (simp add: toLowerCase_char_def toUpperCase_char_def upper_letters_def lower_letters_def)

lemma toLowerCase_idem: "toLowerCase (toLowerCase s) = toLowerCase s"
  by (simp add: toLowerCase_def toLowerCase_char_idem)

lemma toLowerCase_toUpperCase: "toLowerCase (toUpperCase s) = toLowerCase s"
  by (simp add: toLowerCase_def toUpperCase_def toLowerCase_char_upper)

lemma alias_values:
  "map_of PLATFORM_ALIASES k = Some v \<Longrightarrow>
     v \<in> {''darwin-arm64'', ''darwin-x64'', ''linux-arm64'', ''linux-x64''}"
  by (simp add: PLATFORM_ALIASES_def split: if_splits)

lemma canonical_values:
  "normalizePlatform ''darwin-arm64'' = Str ''darwin-arm64''"
  "normalizePlatform ''darwin-x64'' = Str ''darwin-x64''"
  "normalizePlatform ''linux-arm64'' = Str ''linux-arm64''"
  "normalizePlatform ''linux-x64'' = Str ''linux-x64''"
  by (simp_all add: normalize_defs lower_defs)

lemma canonical_lower:
  "toLowerCase ''darwin-arm64'' = ''darwin-arm64''" "toLowerCase ''darwin-x64'' = ''darwin-x64''"
  "toLowerCase ''linux-arm64'' = ''linux-arm64''" "toLowerCase ''linux-x64'' = ''linux-x64''"
  by (simp_all add: lower_defs)

lemma normalizePlatform_of_lower: "normalizePlatform (toLowerCase s) = normalizePlatform s"
  by (simp add: normalizePlatform_def toLowerCase_idem)

lemma normalizePlatform_of_upper: "normalizePlatform (toUpperCase s) = normalizePlatform s"
  by (simp add: normalizePlatform_def toLowerCase_toUpperCase)

lemma normalizePlatform_alias:
  "map_of PLATFORM_ALIASES (toLowerCase s) = Some v \<Longrightarrow> normalizePlatform s = Str v"
  using alias_values [of "toLowerCase s" v]
  by (auto simp: normalizePlatform_def lookup_or_def get_prop_def)

lemma normalizePlatform_no_alias:
  "map_of PLATFORM_ALIASES (toLowerCase s) = None \<Longrightarrow> map_of Object_prototype (toLowerCase s) = None
     \<Longrightarrow> normalizePlatform s = Str (toLowerCase s)"
  by (simp add: normalizePlatform_def lookup_or_def get_prop_def)

lemma normalizePlatform_inherited:
  "map_of PLATFORM_ALIASES (toLowerCase s) = None \<Longrightarrow> map_of Object_prototype (toLowerCase s) = Some t
     \<Longrightarrow> normalizePlatform s = Obj t"
  by (simp add: normalizePlatform_def lookup_or_def get_prop_def)

text \<open>
  Away from the names that objects inherit, the normalizer does what its declaration
  says: it returns a string, which is lower-case and which it maps to itself; without an
  alias entry that string is the lower-cased argument.
\<close>

lemma normalizePlatform_own_names:
  assumes "map_of Object_prototype (toLowerCase s) = None"
  shows "\<exists>v. normalizePlatform s = Str v \<and> normalizePlatform v = Str v \<and> toLowerCase v = v
             \<and> (map_of PLATFORM_ALIASES (toLowerCase s) = None \<longrightarrow> v = toLowerCase s)"
proof (cases "map_of PLATFORM_ALIASES (toLowerCase s)")
  case None
  from normalizePlatform_no_alias [OF None assms]
  have 1: "normalizePlatform s = Str (toLowerCase s)" .
  with normalizePlatform_of_lower [of s]
  have "normalizePlatform (toLowerCase s) = Str (toLowerCase s)" by simp
  with 1 None show ?thesis by (simp add: toLowerCase_idem)
next
  case (Some v)
  from normalizePlatform_alias [OF Some] have 1: "normalizePlatform s = Str v" .
  from alias_values [OF Some] canonical_values canonical_lower
  have "normalizePlatform v = Str v \<and> toLowerCase v = v" by auto
  with 1 Some show ?thesis by simp
qed

text \<open>The text of a normalized platform is never \<open>__proto__\<close>, whatever the argument.\<close>

lemma normalized_key_not_proto: "normalized_key p \<noteq> ''__proto__''"
proof (cases "map_of PLATFORM_ALIASES (toLowerCase p)")
  case (Some v)
  from alias_values [OF Some] normalizePlatform_alias [OF Some] show ?thesis by auto
next
  case None
  show ?thesis
  proof (cases "map_of Object_prototype (toLowerCase p)")
    case n: None
    have "map_of Object_prototype ''__proto__'' \<noteq> None" by (simp add: Object_prototype_def)
    with n have "toLowerCase p \<noteq> ''__proto__''" by auto
    with normalizePlatform_no_alias [OF None n] show ?thesis by simp
  next
    case (Some t)
    have "list_all (\<lambda>e. snd e \<noteq> ''__proto__'') Object_prototype"
      by (simp add: Object_prototype_def)
    with map_of_SomeD [OF Some] have "t \<noteq> ''__proto__''"
      unfolding list_all_iff by force
    with normalizePlatform_inherited [OF None Some] show ?thesis by simp
  qed
qed

text \<open>
  C3 holds on every string but the inherited names, where the code goes wrong:
  \<open>constructor\<close> has no entry in the alias table, yet the lookup finds the constructor
  that the table inherits, and the normalizer returns that function in place of the
  lower-cased argument. (Normalizing the result once more then fails, a function having
  no \<open>toLowerCase\<close>.)
\<close>

theorem normalizePlatform_inherited_name:
  "map_of PLATFORM_ALIASES (toLowerCase ''constructor'') = None
   \<and> normalizePlatform ''constructor'' = Obj ''function Object() { [native code] }''
   \<and> normalizePlatform ''constructor'' \<noteq> Str (toLowerCase ''constructor'')
   \<and> normalizePlatform ''CONSTRUCTOR'' = Obj ''function Object() { [native code] }''"
  by (simp add: normalize_defs lower_defs)

section \<open>Properties of \<open>processAssets\<close>\<close>

lemma map_of_set_prop: "map_of (set_prop k v ps) = (map_of ps)(k \<mapsto> v)"
  by (induction ps) (auto simp: fun_eq_iff)

lemma keys_set_prop: "fst ` set (set_prop k v ps) = insert k (fst ` set ps)"
  by (induction ps) auto

lemma distinct_set_prop: "distinct (map fst ps) \<Longrightarrow> distinct (map fst (set_prop k v ps))"
  by (induction ps) (auto simp: keys_set_prop)

lemma processAssets_step_fst:
  "fst (processAssets_step w (a, e) x) = set_prop (fst (fst (processAsset w x))) (snd (fst (processAsset w x))) a"
  by (simp add: processAssets_step_def Let_def)

lemma processAssets_step_snd:
  "snd (processAssets_step w (a, e) x) = e @ snd (processAsset w x)"
  by (simp add: processAssets_step_def Let_def)

lemma foldl_map_of:
  "map_of (fst (foldl (processAssets_step w) (a, e) raw))
     = map_of (rev (map (\<lambda>x. fst (processAsset w x)) raw) @ a)"
proof (induction raw arbitrary: a e)
  case Nil
  show ?case by simp
next
  case (Cons x xs)
  obtain a' e' where st: "processAssets_step w (a, e) x = (a', e')"
    by (cases "processAssets_step w (a, e) x")
  have a': "a' = set_prop (fst (fst (processAsset w x))) (snd (fst (processAsset w x))) a"
    using processAssets_step_fst [of w a e x] st by simp
  have "map_of (fst (foldl (processAssets_step w) (a, e) (x # xs)))
          = map_of (rev (map (\<lambda>x. fst (processAsset w x)) xs) @ a')"
    using Cons.IH [of a' e'] st by simp
  also have "\<dots> = map_of (rev (map (\<lambda>x. fst (processAsset w x)) (x # xs)) @ a)"
    by (simp add: a' map_of_set_prop map_add_def fun_eq_iff split: option.splits)
  finally show ?case .
qed

lemma foldl_events:
  "snd (foldl (processAssets_step w) (a, e) raw) = e @ concat (map (\<lambda>x. snd (processAsset w x)) raw)"
proof (induction raw arbitrary: a e)
  case Nil
  show ?case by simp
next
  case (Cons x xs)
  obtain a' e' where st: "processAssets_step w (a, e) x = (a', e')"
    by (cases "processAssets_step w (a, e) x")
  have e': "e' = e @ snd (processAsset w x)"
    using processAssets_step_snd [of w a e x] st by simp
  show ?case using Cons.IH [of a' e'] st e' by simp
qed

lemma foldl_keys:
  "set (map fst (fst (foldl (processAssets_step w) (a, e) raw)))
     = set (map fst a) \<union> (\<lambda>x. fst (fst (processAsset w x))) ` set raw"
proof (induction raw arbitrary: a e)
  case Nil
  show ?case by simp
next
  case (Cons x xs)
  obtain a' e' where st: "processAssets_step w (a, e) x = (a', e')"
    by (cases "processAssets_step w (a, e) x")
  have a': "a' = set_prop (fst (fst (processAsset w x))) (snd (fst (processAsset w x))) a"
    using processAssets_step_fst [of w a e x] st by simp
  show ?case using Cons.IH [of a' e'] st by (simp add: a' keys_set_prop)
qed

lemma foldl_distinct:
  "distinct (map fst a) \<Longrightarrow> distinct (map fst (fst (foldl (processAssets_step w) (a, e) raw)))"
proof (induction raw arbitrary: a e)
  case Nil
  then show ?case by simp
next
  case (Cons x xs)
  obtain a' e' where st: "processAssets_step w (a, e) x = (a', e')"
    by (cases "processAssets_step w (a, e) x")
  have a': "a' = set_prop (fst (fst (processAsset w x))) (snd (fst (processAsset w x))) a"
    using processAssets_step_fst [of w a e x] st by simp
  have "distinct (map fst a')" unfolding a' by (rule distinct_set_prop) (rule Cons.prems)
  from Cons.IH [OF this, of e'] st show ?case by simp
qed

lemma processAssets_map:
  "map_of (fst (processAssets w raw)) = map_of (rev (map (\<lambda>e. fst (processAsset w e)) raw))"
  unfolding processAssets_def using foldl_map_of [of w "[]" "[]" raw] by simp

lemma processAssets_keys:
  "set (map fst (fst (processAssets w raw)))
     = normalized_key ` set (map fst raw)"
proof -
  have "(\<lambda>x. fst (fst (processAsset w x))) ` set raw
          = (\<lambda>x. to_string (normalizePlatform (fst x))) ` set raw"
    by (rule image_cong) (simp_all add: processAsset_def Let_def)
  with foldl_keys [of w "[]" "[]" raw] show ?thesis
    unfolding processAssets_def by (simp add: image_image)
qed

lemma processAssets_distinct: "distinct (map fst (fst (processAssets w raw)))"
  unfolding processAssets_def by (rule foldl_distinct) simp

lemma processAssets_last:
  assumes "raw = xs @ (p, info) # ys"
    and "to_string (normalizePlatform p) \<notin> normalized_key ` set (map fst ys)"
  shows "map_of (fst (processAssets w raw)) (to_string (normalizePlatform p))
           = Some (snd (fst (processAsset w (p, info))))"
proof -
  let ?f = "\<lambda>e. fst (processAsset w e)"
  let ?k = "\<lambda>q. to_string (normalizePlatform q)"
  have k: "\<And>e. fst (?f e) = ?k (fst e)"
    by (simp add: processAsset_def Let_def)
  have "?k p \<notin> fst ` set (rev (map ?f ys))"
    using assms(2) by (auto simp: image_image k)
  then have none: "map_of (rev (map ?f ys)) (?k p) = None"
    by (simp add: map_of_eq_None_iff)
  have "map_of (fst (processAssets w raw)) (?k p)
          = map_of (rev (map ?f ys) @ ?f (p, info) # rev (map ?f xs)) (?k p)"
    by (simp add: processAssets_map assms(1))
  also have "\<dots> = map_of (?f (p, info) # rev (map ?f xs)) (?k p)"
    using none by (simp add: map_add_def)
  also have "\<dots> = Some (snd (?f (p, info)))"
    using k [of "(p, info)"] by (cases "?f (p, info)") simp
  finally show ?thesis .
qed

lemmas eval_defs =
  processAssets_def processAssets_step_def processAsset_def normalize_defs lower_defs
  truthy_def Let_def

lemma collision_run: "processAssets offline raw_collision = ([(''darwin-x64'', asset_b)], [])"
  by (simp add: eval_defs raw_collision_def asset_a_def asset_b_def)

text \<open>
  What holds of the keys for every input: they are pairwise different, they are the
  normalized raw keys, and the entry of a key is that of the last raw entry, in iteration
  order, normalizing to it. A raw key away from the inherited names gives a key that is
  lower-case and that the normalizer maps to itself.
\<close>

lemma processAssets_last_write_wins:
  "distinct (map fst (fst (processAssets w raw)))
   \<and> set (map fst (fst (processAssets w raw)))
       = normalized_key ` set (map fst raw)
   \<and> map_of (fst (processAssets w raw)) = map_of (rev (map (\<lambda>e. fst (processAsset w e)) raw))"
  using processAssets_distinct [of w raw] processAssets_keys [of w raw] processAssets_map [of w raw]
  by blast

lemma processAssets_own_keys:
  assumes "(p, info) \<in> set raw" "map_of Object_prototype (toLowerCase p) = None"
  shows "\<exists>k. k \<in> set (map fst (fst (processAssets w raw))) \<and> normalizePlatform p = Str k
             \<and> normalizePlatform k = Str k \<and> toLowerCase k = k"
proof -
  from normalizePlatform_own_names [OF assms(2)] obtain v where
    v: "normalizePlatform p = Str v" "normalizePlatform v = Str v" "toLowerCase v = v" by blast
  from assms(1) have "to_string (normalizePlatform p) \<in> set (map fst (fst (processAssets w raw)))"
    unfolding processAssets_keys by force
  with v(1) have "v \<in> set (map fst (fst (processAssets w raw)))" by simp
  with v show ?thesis by blast
qed

text \<open>
  C4 fails on the raw key \<open>constructor\<close>: the normalizer returns the inherited
  constructor, and the entry is stored under the text of that function, a key that is not
  lower-case.
\<close>

theorem processAssets_inherited_key:
  "map fst (fst (processAssets offline [(''constructor'', asset_a)]))
     = [''function Object() { [native code] }'']
   \<and> toLowerCase ''function Object() { [native code] }'' \<noteq> ''function Object() { [native code] }''"
  by (simp add: eval_defs asset_a_def)

section \<open>Properties of the formula context\<close>

text \<open>
  C6. In the context built for the formula, \<open>darwinAmd64\<close> equals \<open>darwinX64\<close> and
  \<open>linuxAmd64\<close> equals \<open>linuxX64\<close>, for every assets mapping and all metadata: both alias
  fields are read from the \<open>x64\<close> entry of the mapping and from nothing else.
\<close>

theorem buildContext_alias_fields:
  "darwinAmd64 (buildContext nm ver ast descr home lic binName priv)
     = darwinX64 (buildContext nm ver ast descr home lic binName priv)
   \<and> linuxAmd64 (buildContext nm ver ast descr home lic binName priv)
     = linuxX64 (buildContext nm ver ast descr home lic binName priv)
   \<and> darwinAmd64 (buildContext nm ver ast descr home lic binName priv) = map_of ast ''darwin-x64''
   \<and> linuxAmd64 (buildContext nm ver ast descr home lic binName priv) = map_of ast ''linux-x64''"
  by (simp add: buildContext_def Let_def)

text \<open>
  C5, as stated, fails for the formula context: its \<open>version\<close> field holds the stripped
  string, so for \<open>v1.0.0\<close> the original version is not in the context.
\<close>

theorem buildContext_version_counterexample:
  "version (buildContext ''myapp'' ''v1.0.0'' [] ''My app'' '''' ''MIT'' ''myapp'' False) \<noteq> ''v1.0.0''"
  by (simp add: buildContext_def strip_v_def Let_def)

text \<open>
  C5, amended. Both context builders strip one leading \<open>v\<close>, if there is one, into
  \<open>versionClean\<close>. The release-notes context keeps the original string in \<open>version\<close>
  beside it; the formula context stores the stripped string in \<open>version\<close> as well (its
  templates document \<open>version\<close> as the version without the prefix).
\<close>

theorem buildContext_versionClean:
  "versionClean (buildContext nm ver ast descr home lic binName priv) = strip_v ver
   \<and> version (buildContext nm ver ast descr home lic binName priv) = strip_v ver
   \<and> release_versionClean (buildContext_release w ver dir pn pd repo pre bs run) = strip_v ver
   \<and> release_version (buildContext_release w ver dir pn pd repo pre bs run) = ver
   \<and> strip_v (CHR ''v'' # s) = s
   \<and> (\<not> startsWith ver ''v'' \<longrightarrow> strip_v ver = ver)"
  by (cases ver) (simp_all add: buildContext_def buildContext_release_def strip_v_def startsWith_def Let_def)

theorem buildContext_versionClean_witness:
  "\<not> startsWith ''1.2.3'' ''v'' \<and> strip_v ''1.2.3'' = ''1.2.3''
   \<and> versionClean (buildContext ''myapp'' ''1.2.3'' [] ''My app'' '''' ''MIT'' ''myapp'' False) = ''1.2.3''"
proof -
  note t = buildContext_versionClean [of "''myapp''" "''1.2.3''" "[]" "''My app''" "''''" "''MIT''" "''myapp''" False]
  have h: "\<not> startsWith ''1.2.3'' ''v''" by (simp add: startsWith_def)
  from t h have a: "strip_v ''1.2.3'' = ''1.2.3''" by blast
  from t have "versionClean (buildContext ''myapp'' ''1.2.3'' [] ''My app'' '''' ''MIT'' ''myapp'' False) = strip_v ''1.2.3''"
    by blast
  with a h show ?thesis by simp
qed

section \<open>Effects of \<open>processAssets\<close> and failures of \<open>processUrls\<close>\<close>

lemma requests_append: "requests (a @ b) = requests a @ requests b"
  by (simp add: requests_def)

lemma requests_simps:
  "requests [] = []"
  "requests (Debug m # es) = requests es"
  "requests (Info m # es) = requests es"
  "requests (Warning m # es) = requests es"
  "requests (Fetched u # es) = u # requests es"
  "requests (FileRead f # es) = requests es"
  "requests (FileHashed f # es) = requests es"
  "requests (FileStat f # es) = requests es"
  "requests (BufferHashed f # es) = requests es"
  by (simp_all add: requests_def)

lemma fetchSha256_requests: "requests (snd (fetchSha256 w u)) = [u @ ''.sha256'']"
  by (simp add: fetchSha256_def requests_simps requests_append Let_def
      split: sum.splits option.splits)

lemma processAsset_value:
  "snd (fst (processAsset w (p, info)))
     = info\<lparr>sha256 := (if truthy (sha256 info) \<or> url info = [] then sha256 info
                        else fst (fetchSha256 w (url info)))\<rparr>"
  by (simp add: processAsset_def Let_def)

lemma processAsset_requests:
  "requests (snd (processAsset w (p, info)))
     = (if truthy (sha256 info) \<or> url info = [] then [] else [url info @ ''.sha256''])"
  by (simp add: processAsset_def Let_def requests_append requests_simps fetchSha256_requests)

lemma processAsset_quiet: "truthy (sha256 info) \<Longrightarrow> snd (processAsset w (p, info)) = []"
  by (simp add: processAsset_def Let_def)

lemma processAssets_events:
  "snd (processAssets w raw) = concat (map (\<lambda>e. snd (processAsset w e)) raw)"
  unfolding processAssets_def using foldl_events [of w "[]" "[]" raw] by simp

lemma processAsset_warning:
  assumes "\<not> truthy (sha256 info)" "url info \<noteq> []" "fst (fetchSha256 w (url info)) = None"
  shows "Warning (''Could not fetch SHA256 for '' @ normalized_key p @ '', formula may be incomplete'')
           \<in> set (snd (processAsset w (p, info)))"
  using assms by (simp add: processAsset_def Let_def truthy_def)

lemma run_loop_abort:
  "x \<in> set xs \<Longrightarrow> (\<And>st. isl (step st x)) \<Longrightarrow> isl (run_loop step st xs)"
proof (induction xs arbitrary: st)
  case Nil
  then show ?case by simp
next
  case (Cons y ys)
  show ?case
  proof (cases "step st y")
    case (Inl e)
    then show ?thesis by simp
  next
    case (Inr st')
    show ?thesis
    proof (cases "x = y")
      case True
      with Cons.prems(2) [of st] Inr show ?thesis by simp
    next
      case False
      with Cons.prems(1) have "x \<in> set ys" by simp
      from Cons.IH [OF this Cons.prems(2), of st'] Inr show ?thesis by simp
    qed
  qed
qed

lemma processUrls_step_abort:
  assumes "\<not> truthy (fst (fetchSha256FromUrl w u))" "isl (fst (downloadUrl w u))"
  shows "isl (processUrls_step w algorithm r st u)"
  using assms
  by (cases "pathname w u"; cases "fst (downloadUrl w u)")
    (simp_all add: processUrls_step_def Let_def truthy_def)

lemma normalize_examples:
  "normalized_key ''darwin-amd64'' = ''darwin-x64''"
  "normalized_key ''Linux-AMD64'' = ''linux-x64''"
  by (simp_all add: normalize_defs lower_defs)

lemma missing_sidecar:
  "fst (fetchSha256 half_online ''https://example.com/missing.tar.gz'') = None"
  "fst (fetchSha256FromUrl half_online ''https://example.com/missing.tar.gz'') = None"
  by (simp_all add: fetchSha256_def fetchSha256FromUrl_def half_online_def Let_def)

lemma missing_download:
  "fst (downloadUrl half_online ''https://example.com/missing.tar.gz'')
     = Inl ''Failed to download https://example.com/missing.tar.gz: 404 Not Found''"
  by (simp add: downloadUrl_def half_online_def Let_def show_nat.simps digit_char_def)

text \<open>
  C1, as stated, fails for \<open>processUrls\<close>: when the first of two URLs has neither a
  sidecar nor a downloadable content, the batch ends with the error of that download and
  returns no checksum at all, although the second URL resolves when it is processed alone.
\<close>

theorem checksum_failure_isolation_counterexample:
  "map_sum fst fst (processUrls half_online two_urls Sha256 True)
     = Inl ''Failed to download https://example.com/missing.tar.gz: 404 Not Found''
   \<and> map_sum fst fst (processUrls half_online [''https://example.com/ok.tar.gz''] Sha256 True)
     = Inr [(''ok.tar.gz'', ''digest of content'')]"
proof -
  have p1: "pathname half_online ''https://example.com/missing.tar.gz'' = Inr ''/missing.tar.gz''"
    and p2: "pathname half_online ''https://example.com/ok.tar.gz'' = Inr ''/ok.tar.gz''"
    by (simp_all add: half_online_def example_pathname_def startsWith_def)
  have s2: "fst (fetchSha256FromUrl half_online ''https://example.com/ok.tar.gz'') = None"
    by (simp add: fetchSha256FromUrl_def half_online_def Let_def)
  have d2: "fst (downloadUrl half_online ''https://example.com/ok.tar.gz'') = Inr ''content''"
    by (simp add: downloadUrl_def half_online_def Let_def)
  have b: "basename ''/ok.tar.gz'' = ''ok.tar.gz''"
    by (simp add: basename_def)
  have h: "hashBuffer half_online ''content'' Sha256 = ''digest of content''"
    by (simp add: hashBuffer_def half_online_def)
  have a: "map_sum fst fst (processUrls half_online two_urls Sha256 True)
     = Inl ''Failed to download https://example.com/missing.tar.gz: 404 Not Found''"
    by (simp add: processUrls_def two_urls_def processUrls_step_def p1 missing_sidecar
        missing_download truthy_def Let_def)
  have c: "map_sum fst fst (processUrls half_online [''https://example.com/ok.tar.gz''] Sha256 True)
     = Inr [(''ok.tar.gz'', ''digest of content'')]"
    by (simp add: processUrls_def processUrls_step_def assign_str_def p2 s2 d2 b h truthy_def
        Let_def)
  from a c show ?thesis by (rule conjI)
qed

text \<open>
  C1, amended. In \<open>processAssets\<close> a failed checksum lookup is isolated: the asset is stored
  with its checksum absent and a warning is logged, the run returns a mapping with an
  entry for every normalized raw key, and each entry is computed from its own raw entry
  alone. In \<open>processUrls\<close> there is no isolation: a URL that has no usable sidecar and
  cannot be downloaded ends the whole batch with an error.
\<close>

theorem checksum_failure_isolation:
  "((p, info) \<in> set raw \<and> \<not> truthy (sha256 info) \<and> url info \<noteq> []
      \<and> fst (fetchSha256 w (url info)) = None
     \<longrightarrow> sha256 (snd (fst (processAsset w (p, info)))) = None
         \<and> Warning (''Could not fetch SHA256 for '' @ normalized_key p
                     @ '', formula may be incomplete'') \<in> set (snd (processAssets w raw)))
   \<and> set (map fst (fst (processAssets w raw))) = normalized_key ` set (map fst raw)
   \<and> map_of (fst (processAssets w raw)) = map_of (rev (map (\<lambda>e. fst (processAsset w e)) raw))
   \<and> (u \<in> set urls \<and> \<not> truthy (fst (fetchSha256FromUrl w u)) \<and> isl (fst (downloadUrl w u))
     \<longrightarrow> isl (processUrls w urls algorithm r))"
proof -
  have 1: "sha256 (snd (fst (processAsset w (p, info)))) = None
         \<and> Warning (''Could not fetch SHA256 for '' @ normalized_key p
                     @ '', formula may be incomplete'') \<in> set (snd (processAssets w raw))"
    if h: "(p, info) \<in> set raw" "\<not> truthy (sha256 info)" "url info \<noteq> []"
      "fst (fetchSha256 w (url info)) = None"
  proof
    show "sha256 (snd (fst (processAsset w (p, info)))) = None"
      using h by (simp add: processAsset_value)
    from processAsset_warning [OF h(2,3,4), of p] h(1)
    show "Warning (''Could not fetch SHA256 for '' @ normalized_key p
                     @ '', formula may be incomplete'') \<in> set (snd (processAssets w raw))"
      unfolding processAssets_events by force
  qed
  have 2: "isl (processUrls w urls algorithm r)"
    if h: "u \<in> set urls" "\<not> truthy (fst (fetchSha256FromUrl w u))" "isl (fst (downloadUrl w u))"
    unfolding processUrls_def
    by (rule run_loop_abort [OF h(1)]) (rule processUrls_step_abort [OF h(2,3)])
  from 1 2 processAssets_keys [of w raw] processAssets_map [of w raw] show ?thesis by blast
qed

theorem checksum_failure_isolation_witness:
  "(''Linux-AMD64'', asset_c) \<in> set raw_mixed \<and> \<not> truthy (sha256 asset_c) \<and> url asset_c \<noteq> []
   \<and> fst (fetchSha256 half_online (url asset_c)) = None
   \<and> Warning ''Could not fetch SHA256 for linux-x64, formula may be incomplete''
        \<in> set (snd (processAssets half_online raw_mixed))
   \<and> set (map fst (fst (processAssets half_online raw_mixed))) = {''linux-x64'', ''darwin-arm64''}
   \<and> ''https://example.com/missing.tar.gz'' \<in> set two_urls
   \<and> \<not> truthy (fst (fetchSha256FromUrl half_online ''https://example.com/missing.tar.gz''))
   \<and> isl (fst (downloadUrl half_online ''https://example.com/missing.tar.gz''))
   \<and> isl (processUrls half_online two_urls Sha256 True)"
proof -
  note t = checksum_failure_isolation [of "''Linux-AMD64''" asset_c raw_mixed half_online
      "''https://example.com/missing.tar.gz''" two_urls Sha256 True]
  have a1: "(''Linux-AMD64'', asset_c) \<in> set raw_mixed" by (simp add: raw_mixed_def)
  have a2: "\<not> truthy (sha256 asset_c)" by (simp add: asset_c_def truthy_def)
  have a3: "url asset_c \<noteq> []" by (simp add: asset_c_def)
  have a4: "fst (fetchSha256 half_online (url asset_c)) = None"
    using missing_sidecar(1) by (simp add: asset_c_def)
  have b1: "''https://example.com/missing.tar.gz'' \<in> set two_urls" by (simp add: two_urls_def)
  have b2: "\<not> truthy (fst (fetchSha256FromUrl half_online ''https://example.com/missing.tar.gz''))"
    by (simp add: missing_sidecar truthy_def)
  have b3: "isl (fst (downloadUrl half_online ''https://example.com/missing.tar.gz''))"
    by (simp add: missing_download)
  from t a1 a2 a3 a4 have
    "Warning (''Could not fetch SHA256 for '' @ normalized_key ''Linux-AMD64''
                     @ '', formula may be incomplete'') \<in> set (snd (processAssets half_online raw_mixed))"
    by blast
  then have c1: "Warning ''Could not fetch SHA256 for linux-x64, formula may be incomplete''
        \<in> set (snd (processAssets half_online raw_mixed))"
    by (simp add: normalize_examples)
  from t have "set (map fst (fst (processAssets half_online raw_mixed)))
      = normalized_key ` set (map fst raw_mixed)" by blast
  then have c2: "set (map fst (fst (processAssets half_online raw_mixed))) = {''linux-x64'', ''darwin-arm64''}"
    by (simp add: raw_mixed_def normalize_examples canonical_values)
  from t b1 b2 b3 have c3: "isl (processUrls half_online two_urls Sha256 True)" by blast
  from a1 a2 a3 a4 c1 c2 b1 b2 b3 c3 show ?thesis by blast
qed

text \<open>
  C10, as stated, fails for an entry that a later spelling of the same platform
  overwrites: the entry under the normalized key of \<open>darwin-amd64\<close> carries the URL of the
  \<open>darwin-x64\<close> entry.
\<close>

theorem processAssets_frame_counterexample:
  "(''darwin-amd64'', asset_a) \<in> set raw_collision
   \<and> map_option url (map_of (fst (processAssets offline raw_collision)) (normalized_key ''darwin-amd64''))
       \<noteq> Some (url asset_a)"
  by (simp add: collision_run normalize_examples) (simp add: raw_collision_def asset_a_def asset_b_def)

text \<open>
  C10, amended. For an entry that is the last, in iteration order, of those normalizing to
  its key, the output entry under that key keeps \<open>url\<close> and \<open>filename\<close>; a checksum that
  is present and not empty is kept and the entry causes no request and no log line;
  otherwise, with a non-empty URL, the checksum is what the one sidecar request
  \<open>url.sha256\<close> yields. The events of a run are those of its entries, in order.
\<close>

theorem processAssets_frame:
  "(raw = xs @ (p, info) # ys \<and> normalized_key p \<notin> normalized_key ` set (map fst ys)
     \<longrightarrow> (\<exists>out. map_of (fst (processAssets w raw)) (normalized_key p) = Some out
            \<and> url out = url info \<and> filename out = filename info
            \<and> sha256 out = (if truthy (sha256 info) \<or> url info = [] then sha256 info
                             else fst (fetchSha256 w (url info)))))
   \<and> requests (snd (processAsset w (p, info)))
       = (if truthy (sha256 info) \<or> url info = [] then [] else [url info @ ''.sha256''])
   \<and> (truthy (sha256 info) \<longrightarrow> snd (processAsset w (p, info)) = [])
   \<and> snd (processAssets w raw) = concat (map (\<lambda>e. snd (processAsset w e)) raw)"
proof -
  have 1: "\<exists>out. map_of (fst (processAssets w raw)) (normalized_key p) = Some out
            \<and> url out = url info \<and> filename out = filename info
            \<and> sha256 out = (if truthy (sha256 info) \<or> url info = [] then sha256 info
                             else fst (fetchSha256 w (url info)))"
    if h: "raw = xs @ (p, info) # ys" "normalized_key p \<notin> normalized_key ` set (map fst ys)"
    using processAssets_last [OF h, of w] by (simp add: processAsset_value)
  from 1 processAsset_requests [of w p info] processAsset_quiet [of info w p]
    processAssets_events [of w raw]
  show ?thesis by blast
qed

theorem processAssets_frame_witness:
  "raw_mixed = [(''Linux-AMD64'', asset_c)] @ (''darwin-arm64'', asset_a) # []
   \<and> normalized_key ''darwin-arm64'' \<notin> normalized_key ` set (map fst ([] :: Assets))
   \<and> truthy (sha256 asset_a)
   \<and> map_of (fst (processAssets half_online raw_mixed)) ''darwin-arm64'' = Some asset_a
   \<and> snd (processAsset half_online (''darwin-arm64'', asset_a)) = []"
proof -
  note t = processAssets_frame [of raw_mixed "[(''Linux-AMD64'', asset_c)]" "''darwin-arm64''"
      asset_a "[]" half_online]
  have a1: "raw_mixed = [(''Linux-AMD64'', asset_c)] @ (''darwin-arm64'', asset_a) # []"
    by (simp add: raw_mixed_def)
  have a2: "normalized_key ''darwin-arm64'' \<notin> normalized_key ` set (map fst ([] :: Assets))"
    by simp
  have a3: "truthy (sha256 asset_a)" by (simp add: asset_a_def truthy_def)
  from t a1 a2 obtain out where
    o: "map_of (fst (processAssets half_online raw_mixed)) (normalized_key ''darwin-arm64'') = Some out"
      "url out = url asset_a" "filename out = filename asset_a"
      "sha256 out = (if truthy (sha256 asset_a) \<or> url asset_a = [] then sha256 asset_a
                             else fst (fetchSha256 half_online (url asset_a)))"
    by blast
  from o(4) a3 have "sha256 out = sha256 asset_a" by simp
  with o(2,3) have "out = asset_a" by simp
  with o(1) have c1: "map_of (fst (processAssets half_online raw_mixed)) ''darwin-arm64'' = Some asset_a"
    by (simp add: canonical_values)
  from t a3 have c2: "snd (processAsset half_online (''darwin-arm64'', asset_a)) = []" by blast
  from a1 a2 a3 c1 c2 show ?thesis by blast
qed

section \<open>Sidecar checksum files\<close>

lemma hex_not_space: "isHexDigit c \<Longrightarrow> \<not> isSpace c"
  by (auto simp: isHexDigit_def isSpace_def)

lemma trim_hex_prefix:
  assumes "length h = 64" "list_all isHexDigit h"
  shows "\<exists>r. trim (h @ rest) = h @ r"
proof -
  from assms(1) have ne: "h \<noteq> []" by auto
  from ne assms(2) have "\<not> isSpace (hd h)"
    by (cases h) (auto dest: hex_not_space)
  with ne have d1: "dropWhile isSpace (h @ rest) = h @ rest"
    by (cases h) auto
  from ne assms(2) have "\<not> isSpace (last h)"
    by (auto simp: list_all_iff dest: hex_not_space)
  with ne have "\<not> isSpace (hd (rev h))" by (simp add: hd_rev)
  with ne have d2: "dropWhile isSpace (rev h) = rev h"
    by (simp add: dropWhile_eq_self_iff)
  have "dropWhile isSpace (rev rest @ rev h)
          = (if \<forall>x\<in>set (rev rest). isSpace x then rev h else dropWhile isSpace (rev rest) @ rev h)"
    by (simp add: dropWhile_append d2)
  then have "trim (h @ rest)
          = (if \<forall>x\<in>set (rev rest). isSpace x then h else h @ rev (dropWhile isSpace (rev rest)))"
    by (simp add: trim_def d1)
  then show ?thesis by (metis append_Nil2)
qed

lemma match_trim:
  assumes "length h = 64" "list_all isHexDigit h"
  shows "match_sha256 (trim (h @ rest)) = Some h"
proof -
  from trim_hex_prefix [OF assms] obtain r where r: "trim (h @ rest) = h @ r" ..
  show ?thesis unfolding r using assms by (simp add: match_sha256_def)
qed

lemma toLowerCase_char_id: "c \<notin> set upper_letters \<Longrightarrow> toLowerCase_char c = c"
  by (simp add: toLowerCase_char_def upper_letters_def lower_letters_def)

lemma toLowerCase_lower: "list_all (\<lambda>c. c \<notin> set upper_letters) s \<Longrightarrow> toLowerCase s = s"
  by (induction s) (simp_all add: toLowerCase_def toLowerCase_char_id)

lemma readSha256File_sidecar:
  assumes "length h = 64" "list_all isHexDigit h" "readFile w (f @ ''.sha256'') = Inr (h @ rest)"
  shows "readSha256File w f = (Some (toLowerCase h), [FileRead (f @ ''.sha256'')])"
  using assms(3) match_trim [OF assms(1,2), of rest] by (simp add: readSha256File_def Let_def)

lemma fetchSha256FromUrl_sidecar:
  assumes "length h = 64" "list_all isHexDigit h"
    "fetch w (u @ ''.sha256'') = Inr (Response True st stt (Inr (h @ rest)))"
  shows "fetchSha256FromUrl w u
           = (Some (toLowerCase h), [Debug (''Fetching SHA256 from '' @ u @ ''.sha256''), Fetched (u @ ''.sha256'')])"
  using assms(3) match_trim [OF assms(1,2), of rest] by (simp add: fetchSha256FromUrl_def Let_def)

lemma truthy_lower: "length h = 64 \<Longrightarrow> truthy (Some (toLowerCase h))"
  by (auto simp: truthy_def toLowerCase_def)

lemma hash_facts:
  "length lower_hash = 64" "list_all isHexDigit lower_hash"
  "length upper_hash = 64" "list_all isHexDigit upper_hash"
  "list_all (\<lambda>c. c \<notin> set upper_letters) lower_hash"
  by (simp_all add: lower_hash_def upper_hash_def isHexDigit_def upper_letters_def)

lemma upper_lowered: "toLowerCase upper_hash = lower_hash"
  by (simp add: lower_hash_def upper_hash_def toLowerCase_def toLowerCase_char_def
      upper_letters_def lower_letters_def)

lemma hashes_differ: "lower_hash \<noteq> upper_hash"
  by (simp add: lower_hash_def upper_hash_def)

lemma processFiles_step_sidecar:
  assumes "length h = 64" "list_all isHexDigit h" "readFile w (f @ ''.sha256'') = Inr (h @ rest)"
    "\<not> endsWith f ''.sha256''"
  shows "processFiles_step w algorithm True (res, evs) f
           = Inr (assign_str (basename f) (toLowerCase h) res,
                  evs @ [FileRead (f @ ''.sha256''),
                         Info (''Read existing checksum for '' @ basename f)])"
  using readSha256File_sidecar [OF assms(1,2,3)] assms(4) truthy_lower [OF assms(1)]
  by (simp add: processFiles_step_def Let_def)

lemma processUrls_step_sidecar:
  assumes "length h = 64" "list_all isHexDigit h"
    "fetch w (u @ ''.sha256'') = Inr (Response True st stt (Inr (h @ rest)))" "pathname w u = Inr p"
  shows "processUrls_step w algorithm True (res, evs) u
           = Inr (assign_str (basename p) (toLowerCase h) res,
                  evs @ [Debug (''Fetching SHA256 from '' @ u @ ''.sha256''),
                         Fetched (u @ ''.sha256''),
                         Info (''Fetched existing checksum for '' @ basename p)])"
  using fetchSha256FromUrl_sidecar [OF assms(1,2,3)] assms(4) truthy_lower [OF assms(1)]
  by (simp add: processUrls_step_def Let_def)

text \<open>
  C2, as stated, fails in these ways. By design: a sidecar in upper-case hexadecimal is
  not returned unchanged; with \<open>read-sha256-files\<close> switched off the sidecar is ignored and
  the digest of the content is computed; and a path that itself ends in \<open>.sha256\<close> is
  skipped, with no result, whatever its own sidecar holds. By a slip: for a file whose
  base name is \<open>__proto__\<close> the sidecar is read and the hash is then lost in the store, so
  that no hash is returned for the file.
\<close>

theorem sidecar_hash_trusted_counterexample:
  "readFile sidecars (''dist/upper.tar.gz'' @ ''.sha256'') = Inr (upper_hash @ ''  upper.tar.gz'' @ [CHR 0x0A])
   \<and> fst (readSha256File sidecars ''dist/upper.tar.gz'') \<noteq> Some upper_hash
   \<and> processFiles_step sidecars Sha256 False ([], []) ''dist/upper.tar.gz''
       = Inr ([(''upper.tar.gz'', ''digest of content'')],
              [Info ''Computing sha256 for upper.tar.gz...'', FileHashed ''dist/upper.tar.gz''])
   \<and> readFile sidecars (''dist/lower.tar.gz.sha256'' @ ''.sha256'')
       = Inr (lower_hash @ ''  lower.tar.gz.sha256'' @ [CHR 0x0A])
   \<and> processFiles_step sidecars Sha256 True ([], []) ''dist/lower.tar.gz.sha256'' = Inr ([], [])
   \<and> readFile sidecars (''dist/__proto__'' @ ''.sha256'') = Inr (lower_hash @ ''  __proto__'' @ [CHR 0x0A])
   \<and> processFiles_step sidecars Sha256 True ([], []) ''dist/__proto__''
       = Inr ([], [FileRead ''dist/__proto__.sha256'', Info ''Read existing checksum for __proto__''])"
proof -
  have r: "readFile sidecars (''dist/upper.tar.gz'' @ ''.sha256'') = Inr (upper_hash @ ''  upper.tar.gz'' @ [CHR 0x0A])"
    by (simp add: sidecars_def)
  from readSha256File_sidecar [OF hash_facts(3,4) r]
  have "fst (readSha256File sidecars ''dist/upper.tar.gz'') = Some lower_hash"
    by (simp add: upper_lowered)
  with hashes_differ have a: "fst (readSha256File sidecars ''dist/upper.tar.gz'') \<noteq> Some upper_hash"
    by simp
  have e: "\<not> endsWith ''dist/upper.tar.gz'' ''.sha256''" by (simp add: endsWith_def)
  have b: "basename ''dist/upper.tar.gz'' = ''upper.tar.gz''" by (simp add: basename_def)
  have h: "hashFile sidecars ''dist/upper.tar.gz'' Sha256 = Inr ''digest of content''"
    by (simp add: hashFile_def sidecars_def)
  have c: "processFiles_step sidecars Sha256 False ([], []) ''dist/upper.tar.gz''
       = Inr ([(''upper.tar.gz'', ''digest of content'')],
              [Info ''Computing sha256 for upper.tar.gz...'', FileHashed ''dist/upper.tar.gz''])"
    by (simp add: processFiles_step_def assign_str_def e b h truthy_def algorithm_name_def Let_def)
  have r2: "readFile sidecars (''dist/lower.tar.gz.sha256'' @ ''.sha256'')
       = Inr (lower_hash @ ''  lower.tar.gz.sha256'' @ [CHR 0x0A])"
    by (simp add: sidecars_def)
  have e2: "endsWith ''dist/lower.tar.gz.sha256'' ''.sha256''" by (simp add: endsWith_def)
  have d: "processFiles_step sidecars Sha256 True ([], []) ''dist/lower.tar.gz.sha256'' = Inr ([], [])"
    by (simp add: processFiles_step_def e2)
  have r3: "readFile sidecars (''dist/__proto__'' @ ''.sha256'') = Inr (lower_hash @ ''  __proto__'' @ [CHR 0x0A])"
    by (simp add: sidecars_def)
  have e3: "\<not> endsWith ''dist/__proto__'' ''.sha256''" by (simp add: endsWith_def)
  have b3: "basename ''dist/__proto__'' = ''__proto__''" by (simp add: basename_def)
  from processFiles_step_sidecar [OF hash_facts(1,2) r3 e3, of Sha256 "[]" "[]"]
  have g: "processFiles_step sidecars Sha256 True ([], []) ''dist/__proto__''
       = Inr ([], [FileRead ''dist/__proto__.sha256'', Info ''Read existing checksum for __proto__''])"
    by (simp add: b3 assign_str_def)
  from r a c r2 d r3 g show ?thesis by blast
qed

text \<open>
  C2, amended. When the sidecar of a file or URL can be read and starts with 64
  hexadecimal digits, followed by anything, the sidecar readers return those 64
  characters converted to lower case, which leaves a lower-case hash unchanged. When
  sidecar files are read (the default of \<open>read-sha256-files\<close>), \<open>processFiles\<close>, for a path
  that does not itself end in \<open>.sha256\<close>, and \<open>processUrls\<close>, for a URL that parses, take
  that hash as the checksum of the entry: the step succeeds, and the only thing it asks of
  the world is the sidecar, so the content is neither read nor downloaded and no digest
  is computed; the hash is recorded under the base name, for every base name other than
  \<open>__proto__\<close>. A path that ends in \<open>.sha256\<close> is skipped.
\<close>

theorem sidecar_hash_trusted:
  "(length h = 64 \<and> list_all isHexDigit h \<and> readFile w (f @ ''.sha256'') = Inr (h @ rest)
     \<longrightarrow> readSha256File w f = (Some (toLowerCase h), [FileRead (f @ ''.sha256'')]))
   \<and> (length h = 64 \<and> list_all isHexDigit h \<and> readFile w (f @ ''.sha256'') = Inr (h @ rest)
      \<and> \<not> endsWith f ''.sha256''
     \<longrightarrow> map_sum snd snd (processFiles_step w algorithm True (res, evs) f)
           = Inr (evs @ [FileRead (f @ ''.sha256''),
                         Info (''Read existing checksum for '' @ basename f)])
         \<and> (basename f \<noteq> ''__proto__''
            \<longrightarrow> processFiles_step w algorithm True (res, evs) f
                  = Inr (set_prop (basename f) (toLowerCase h) res,
                         evs @ [FileRead (f @ ''.sha256''),
                                Info (''Read existing checksum for '' @ basename f)])))
   \<and> (endsWith f ''.sha256'' \<longrightarrow> processFiles_step w algorithm r (res, evs) f = Inr (res, evs))
   \<and> (length h = 64 \<and> list_all isHexDigit h
      \<and> fetch w (u @ ''.sha256'') = Inr (Response True st stt (Inr (h @ rest)))
     \<longrightarrow> fetchSha256FromUrl w u
           = (Some (toLowerCase h),
              [Debug (''Fetching SHA256 from '' @ u @ ''.sha256''), Fetched (u @ ''.sha256'')]))
   \<and> (length h = 64 \<and> list_all isHexDigit h
      \<and> fetch w (u @ ''.sha256'') = Inr (Response True st stt (Inr (h @ rest)))
      \<and> pathname w u = Inr p
     \<longrightarrow> map_sum snd snd (processUrls_step w algorithm True (res, evs) u)
           = Inr (evs @ [Debug (''Fetching SHA256 from '' @ u @ ''.sha256''),
                         Fetched (u @ ''.sha256''),
                         Info (''Fetched existing checksum for '' @ basename p)])
         \<and> (basename p \<noteq> ''__proto__''
            \<longrightarrow> processUrls_step w algorithm True (res, evs) u
                  = Inr (set_prop (basename p) (toLowerCase h) res,
                         evs @ [Debug (''Fetching SHA256 from '' @ u @ ''.sha256''),
                                Fetched (u @ ''.sha256''),
                                Info (''Fetched existing checksum for '' @ basename p)])))
   \<and> (list_all (\<lambda>c. c \<notin> set upper_letters) h \<longrightarrow> toLowerCase h = h)"
proof -
  have 1: "readSha256File w f = (Some (toLowerCase h), [FileRead (f @ ''.sha256'')])"
    if a: "length h = 64" "list_all isHexDigit h" "readFile w (f @ ''.sha256'') = Inr (h @ rest)"
    using a by (rule readSha256File_sidecar)
  have 2: "map_sum snd snd (processFiles_step w algorithm True (res, evs) f)
           = Inr (evs @ [FileRead (f @ ''.sha256''),
                         Info (''Read existing checksum for '' @ basename f)])
         \<and> (basename f \<noteq> ''__proto__''
            \<longrightarrow> processFiles_step w algorithm True (res, evs) f
                  = Inr (set_prop (basename f) (toLowerCase h) res,
                         evs @ [FileRead (f @ ''.sha256''),
                                Info (''Read existing checksum for '' @ basename f)]))"
    if a: "length h = 64" "list_all isHexDigit h" "readFile w (f @ ''.sha256'') = Inr (h @ rest)"
      "\<not> endsWith f ''.sha256''"
    using processFiles_step_sidecar [OF a, of algorithm res evs] by (simp add: assign_str_def)
  have 3: "processFiles_step w algorithm r (res, evs) f = Inr (res, evs)" if "endsWith f ''.sha256''"
    using that by (simp add: processFiles_step_def)
  have 4: "fetchSha256FromUrl w u
           = (Some (toLowerCase h),
              [Debug (''Fetching SHA256 from '' @ u @ ''.sha256''), Fetched (u @ ''.sha256'')])"
    if a: "length h = 64" "list_all isHexDigit h"
      "fetch w (u @ ''.sha256'') = Inr (Response True st stt (Inr (h @ rest)))"
    using a by (rule fetchSha256FromUrl_sidecar)
  have 5: "map_sum snd snd (processUrls_step w algorithm True (res, evs) u)
           = Inr (evs @ [Debug (''Fetching SHA256 from '' @ u @ ''.sha256''),
                         Fetched (u @ ''.sha256''),
                         Info (''Fetched existing checksum for '' @ basename p)])
         \<and> (basename p \<noteq> ''__proto__''
            \<longrightarrow> processUrls_step w algorithm True (res, evs) u
                  = Inr (set_prop (basename p) (toLowerCase h) res,
                         evs @ [Debug (''Fetching SHA256 from '' @ u @ ''.sha256''),
                                Fetched (u @ ''.sha256''),
                                Info (''Fetched existing checksum for '' @ basename p)]))"
    if a: "length h = 64" "list_all isHexDigit h"
      "fetch w (u @ ''.sha256'') = Inr (Response True st stt (Inr (h @ rest)))" "pathname w u = Inr p"
    using processUrls_step_sidecar [OF a, of algorithm res evs] by (simp add: assign_str_def)
  from 1 2 3 4 5 toLowerCase_lower [of h] show ?thesis by blast
qed

theorem sidecar_hash_trusted_witness:
  "length lower_hash = 64 \<and> list_all isHexDigit lower_hash
   \<and> readFile sidecars (''dist/lower.tar.gz'' @ ''.sha256'') = Inr (lower_hash @ ''  lower.tar.gz'' @ [CHR 0x0A])
   \<and> \<not> endsWith ''dist/lower.tar.gz'' ''.sha256''
   \<and> basename ''dist/lower.tar.gz'' \<noteq> ''__proto__''
   \<and> fetch sidecars (''https://example.com/lower.tar.gz'' @ ''.sha256'')
       = Inr (Response True 200 ''OK'' (Inr (lower_hash @ ''  lower.tar.gz'' @ [CHR 0x0A])))
   \<and> pathname sidecars ''https://example.com/lower.tar.gz'' = Inr ''/lower.tar.gz''
   \<and> basename ''/lower.tar.gz'' \<noteq> ''__proto__''
   \<and> list_all (\<lambda>c. c \<notin> set upper_letters) lower_hash
   \<and> fst (readSha256File sidecars ''dist/lower.tar.gz'') = Some lower_hash
   \<and> processFiles_step sidecars Sha256 True ([], []) ''dist/lower.tar.gz''
       = Inr ([(''lower.tar.gz'', lower_hash)],
              [FileRead ''dist/lower.tar.gz.sha256'', Info ''Read existing checksum for lower.tar.gz''])
   \<and> processUrls_step sidecars Sha256 True ([], []) ''https://example.com/lower.tar.gz''
       = Inr ([(''lower.tar.gz'', lower_hash)],
              [Debug ''Fetching SHA256 from https://example.com/lower.tar.gz.sha256'',
               Fetched ''https://example.com/lower.tar.gz.sha256'',
               Info ''Fetched existing checksum for lower.tar.gz''])
   \<and> endsWith ''dist/lower.tar.gz.sha256'' ''.sha256''
   \<and> processFiles_step sidecars Sha256 True ([], []) ''dist/lower.tar.gz.sha256'' = Inr ([], [])"
proof -
  note t = sidecar_hash_trusted [where h = lower_hash and w = sidecars
      and f = "''dist/lower.tar.gz''" and rest = "''  lower.tar.gz'' @ [CHR 0x0A]"
      and algorithm = Sha256 and res = "[]" and evs = "[]"
      and u = "''https://example.com/lower.tar.gz''" and st = 200 and stt = "''OK''"
      and p = "''/lower.tar.gz''"]
  note t' = sidecar_hash_trusted [where f = "''dist/lower.tar.gz.sha256''" and w = sidecars
      and algorithm = Sha256 and r = True and res = "[]" and evs = "[]"]
  have a1: "readFile sidecars (''dist/lower.tar.gz'' @ ''.sha256'') = Inr (lower_hash @ ''  lower.tar.gz'' @ [CHR 0x0A])"
    by (simp add: sidecars_def)
  have a2: "\<not> endsWith ''dist/lower.tar.gz'' ''.sha256''" by (simp add: endsWith_def)
  have a3: "fetch sidecars (''https://example.com/lower.tar.gz'' @ ''.sha256'')
       = Inr (Response True 200 ''OK'' (Inr (lower_hash @ ''  lower.tar.gz'' @ [CHR 0x0A])))"
    by (simp add: sidecars_def)
  have a4: "pathname sidecars ''https://example.com/lower.tar.gz'' = Inr ''/lower.tar.gz''"
    by (simp add: sidecars_def example_pathname_def startsWith_def)
  have b1: "basename ''dist/lower.tar.gz'' = ''lower.tar.gz''" by (simp add: basename_def)
  have b2: "basename ''/lower.tar.gz'' = ''lower.tar.gz''" by (simp add: basename_def)
  have n1: "basename ''dist/lower.tar.gz'' \<noteq> ''__proto__''" unfolding b1 by simp
  have n2: "basename ''/lower.tar.gz'' \<noteq> ''__proto__''" unfolding b2 by simp
  have a5: "endsWith ''dist/lower.tar.gz.sha256'' ''.sha256''" by (simp add: endsWith_def)
  from t hash_facts(5) have l: "toLowerCase lower_hash = lower_hash" by blast
  from t hash_facts(1,2) a1 have
    "readSha256File sidecars ''dist/lower.tar.gz''
       = (Some (toLowerCase lower_hash), [FileRead (''dist/lower.tar.gz'' @ ''.sha256'')])"
    by blast
  then have c0: "fst (readSha256File sidecars ''dist/lower.tar.gz'') = Some lower_hash"
    by (simp add: l)
  from t hash_facts(1,2) a1 a2 n1 have
    "processFiles_step sidecars Sha256 True ([], []) ''dist/lower.tar.gz''
       = Inr (set_prop (basename ''dist/lower.tar.gz'') (toLowerCase lower_hash) [],
              [] @ [FileRead (''dist/lower.tar.gz'' @ ''.sha256''),
                    Info (''Read existing checksum for '' @ basename ''dist/lower.tar.gz'')])"
    by blast
  then have c1: "processFiles_step sidecars Sha256 True ([], []) ''dist/lower.tar.gz''
       = Inr ([(''lower.tar.gz'', lower_hash)],
              [FileRead ''dist/lower.tar.gz.sha256'', Info ''Read existing checksum for lower.tar.gz''])"
    by (simp add: l b1)
  from t hash_facts(1,2) a3 a4 n2 have
    "processUrls_step sidecars Sha256 True ([], []) ''https://example.com/lower.tar.gz''
       = Inr (set_prop (basename ''/lower.tar.gz'') (toLowerCase lower_hash) [],
              [] @ [Debug (''Fetching SHA256 from '' @ ''https://example.com/lower.tar.gz'' @ ''.sha256''),
                    Fetched (''https://example.com/lower.tar.gz'' @ ''.sha256''),
                    Info (''Fetched existing checksum for '' @ basename ''/lower.tar.gz'')])"
    by blast
  then have c2: "processUrls_step sidecars Sha256 True ([], []) ''https://example.com/lower.tar.gz''
       = Inr ([(''lower.tar.gz'', lower_hash)],
              [Debug ''Fetching SHA256 from https://example.com/lower.tar.gz.sha256'',
               Fetched ''https://example.com/lower.tar.gz.sha256'',
               Info ''Fetched existing checksum for lower.tar.gz''])"
    by (simp add: l b2)
  from t' a5 have c3: "processFiles_step sidecars Sha256 True ([], []) ''dist/lower.tar.gz.sha256'' = Inr ([], [])"
    by blast
  from hash_facts(1,2,5) a1 a2 n1 a3 a4 n2 c0 c1 c2 a5 c3 show ?thesis by blast
qed

section \<open>Classification by platform id\<close>

lemma startsWith_iff: "startsWith s p \<longleftrightarrow> (\<exists>post. s = p @ post)"
proof
  assume "startsWith s p"
  then have "s = p @ drop (length p) s"
    by (metis append_take_drop_id startsWith_def)
  then show "\<exists>post. s = p @ post" ..
next
  assume "\<exists>post. s = p @ post"
  then show "startsWith s p" by (auto simp: startsWith_def)
qed

lemma includes_str_iff: "includes_str s p \<longleftrightarrow> (\<exists>pre post. s = pre @ p @ post)"
proof (induction s)
  case Nil
  show ?case by auto
next
  case (Cons c cs)
  show ?case
  proof
    assume "includes_str (c # cs) p"
    then consider "startsWith (c # cs) p" | "includes_str cs p" by auto
    then show "\<exists>pre post. c # cs = pre @ p @ post"
    proof cases
      case 1
      then obtain post where "c # cs = p @ post" unfolding startsWith_iff ..
      then have "c # cs = [] @ p @ post" by simp
      then show ?thesis by blast
    next
      case 2
      with Cons.IH obtain pre post where "cs = pre @ p @ post" by blast
      then have "c # cs = (c # pre) @ p @ post" by simp
      then show ?thesis by blast
    qed
  next
    assume "\<exists>pre post. c # cs = pre @ p @ post"
    then obtain pre post where e: "c # cs = pre @ p @ post" by blast
    show "includes_str (c # cs) p"
    proof (cases pre)
      case Nil
      with e have "startsWith (c # cs) p" unfolding startsWith_iff by auto
      then show ?thesis by simp
    next
      case (Cons d pre')
      with e have "cs = pre' @ p @ post" by simp
      with Cons.IH have "includes_str cs p" by blast
      then show ?thesis by simp
    qed
  qed
qed

lemma find_first:
  "(\<forall>x\<in>set before. \<not> P x) \<Longrightarrow> P e \<Longrightarrow> find P (before @ e # after) = Some e"
  by (induction before) auto

lemma find_Some_member: "find P xs = Some x \<Longrightarrow> P x \<and> x \<in> set xs"
  by (induction xs) (auto split: if_splits)

lemma platform_id_with_id: "platform_id (with_id i p) = i"
  by (simp add: with_id_def)

lemma basename_plain: "CHR ''/'' \<notin> set s \<Longrightarrow> basename s = s"
proof -
  assume a: "CHR ''/'' \<notin> set s"
  then have d: "dropWhile (\<lambda>c. c = CHR ''/'') (rev s) = rev s"
    by (cases "rev s") (auto simp: dropWhile_eq_self_iff)
  from a have "\<forall>x\<in>set (rev s). x \<noteq> CHR ''/''" by auto
  then have t: "takeWhile (\<lambda>c. c \<noteq> CHR ''/'') (rev s) = rev s"
    unfolding takeWhile_eq_all_conv .
  show ?thesis unfolding basename_def d t by simp
qed

lemma detectPlatform_first:
  assumes "PLATFORM_PATTERNS = before @ (pid, pat) # after" "includes_str (basename f) pid"
    "\<forall>e\<in>set before. \<not> includes_str (basename f) (fst e)"
  shows "detectPlatform f pn = Some (with_id pid pat)"
proof -
  have "find (\<lambda>e. includes_str (basename f) (fst e)) PLATFORM_PATTERNS = Some (pid, pat)"
    unfolding assms(1) by (rule find_first) (use assms in auto)
  then show ?thesis by (simp add: detectPlatform_def Let_def)
qed

lemma detectPlatform_some:
  assumes "pid \<in> set (map fst PLATFORM_PATTERNS)" "includes_str (basename f) pid"
  shows "\<exists>p. detectPlatform f pn = Some p \<and> platform_id p \<in> set (map fst PLATFORM_PATTERNS)
             \<and> includes_str (basename f) (platform_id p)"
proof -
  let ?P = "\<lambda>e. includes_str (basename f) (fst e)"
  from assms have "\<exists>x. x \<in> set PLATFORM_PATTERNS \<and> ?P x" by auto
  then have "find ?P PLATFORM_PATTERNS \<noteq> None" by (simp add: find_None_iff)
  then obtain e where e: "find ?P PLATFORM_PATTERNS = Some e" by auto
  from find_Some_member [OF e] have m: "?P e" "e \<in> set PLATFORM_PATTERNS" by auto
  from e have "detectPlatform f pn = Some (with_id (fst e) (snd e))"
    by (simp add: detectPlatform_def Let_def)
  with m show ?thesis by (auto simp: platform_id_with_id)
qed

lemma musl_first:
  "PLATFORM_PATTERNS = [] @ (''linux-amd64-musl'',
         \<lparr> os = ''Linux'', osIcon = '''', arch = ''x86_64'', archFull = ''x86_64 (64-bit, static)'',
           variant = Some ''musl'', displayName = ''Linux x86_64 (static)'' \<rparr>) # tl PLATFORM_PATTERNS"
  by (simp add: PLATFORM_PATTERNS_def)

lemma detectPlatform_musl:
  assumes "includes_str (basename f) ''linux-amd64-musl''"
  shows "\<exists>p. detectPlatform f pn = Some p \<and> platform_id p = ''linux-amd64-musl'' \<and> variant p = Some ''musl''"
proof -
  from detectPlatform_first [OF musl_first assms, of pn]
  show ?thesis by (simp add: with_id_def)
qed

lemma find_Some_split:
  "find P xs = Some e \<Longrightarrow> \<exists>bs as. xs = bs @ e # as \<and> P e \<and> (\<forall>x\<in>set bs. \<not> P x)"
proof (induction xs)
  case Nil
  then show ?case by simp
next
  case (Cons x xs)
  show ?case
  proof (cases "P x")
    case True
    with Cons.prems have "x = e" by simp
    with True have "x # xs = [] @ e # xs \<and> P e \<and> (\<forall>y\<in>set []. \<not> P y)" by simp
    then show ?thesis by blast
  next
    case False
    with Cons.prems have "find P xs = Some e" by simp
    from Cons.IH [OF this] obtain bs as where
      h: "xs = bs @ e # as" "P e" "\<forall>y\<in>set bs. \<not> P y" by blast
    with False have "x # xs = (x # bs) @ e # as \<and> P e \<and> (\<forall>y\<in>set (x # bs). \<not> P y)" by simp
    then show ?thesis by blast
  qed
qed

lemma detectPlatform_first_contained:
  assumes "pid \<in> set (map fst PLATFORM_PATTERNS)" "includes_str (basename f) pid"
  shows "\<exists>bs q pt as. PLATFORM_PATTERNS = bs @ (q, pt) # as \<and> includes_str (basename f) q
            \<and> (\<forall>e\<in>set bs. \<not> includes_str (basename f) (fst e))
            \<and> detectPlatform f pn = Some (with_id q pt)"
proof -
  let ?P = "\<lambda>e. includes_str (basename f) (fst e)"
  from assms have "\<exists>x. x \<in> set PLATFORM_PATTERNS \<and> ?P x" by auto
  then have "find ?P PLATFORM_PATTERNS \<noteq> None" by (simp add: find_None_iff)
  then obtain e where e: "find ?P PLATFORM_PATTERNS = Some e" by auto
  from find_Some_split [OF e] obtain bs as where
    h: "PLATFORM_PATTERNS = bs @ e # as" "?P e" "\<forall>x\<in>set bs. \<not> ?P x" by blast
  from e have d: "detectPlatform f pn = Some (with_id (fst e) (snd e))"
    by (simp add: detectPlatform_def Let_def)
  from h d have "PLATFORM_PATTERNS = bs @ (fst e, snd e) # as \<and> includes_str (basename f) (fst e)
            \<and> (\<forall>x\<in>set bs. \<not> includes_str (basename f) (fst x))
            \<and> detectPlatform f pn = Some (with_id (fst e) (snd e))" by simp
  then show ?thesis by blast
qed

lemma detectPlatform_only:
  assumes "pid \<in> set (map fst PLATFORM_PATTERNS)" "includes_str (basename f) pid"
    "\<forall>q\<in>set (map fst PLATFORM_PATTERNS). includes_str (basename f) q \<longrightarrow> q = pid"
  shows "map_option platform_id (detectPlatform f pn) = Some pid"
proof -
  from detectPlatform_some [OF assms(1,2), of pn] obtain p where
    p: "detectPlatform f pn = Some p" "platform_id p \<in> set (map fst PLATFORM_PATTERNS)"
      "includes_str (basename f) (platform_id p)" by blast
  with assms(3) have "platform_id p = pid" by blast
  with p(1) show ?thesis by simp
qed

lemma distinct_ids: "distinct (map fst PLATFORM_PATTERNS)"
  by (simp add: PLATFORM_PATTERNS_def)

text \<open>
  C7, as stated, fails, by design of the table-order search: a base name may contain two
  ids of the table, and only the first of them in table order is returned.
  \<open>app-darwin-arm64-on-linux-amd64.tar.gz\<close> contains the table id \<open>darwin-arm64\<close> and is
  classified as \<open>linux-amd64\<close>, which stands earlier in the table; likewise
  \<open>app-linux-arm64-linux-aarch64.zip\<close> contains \<open>linux-arm64\<close> and is classified as
  \<open>linux-aarch64\<close>.
\<close>

theorem detectPlatform_known_id_counterexample:
  "''darwin-arm64'' \<in> set (map fst PLATFORM_PATTERNS)
   \<and> includes_str (basename ''app-darwin-arm64-on-linux-amd64.tar.gz'') ''darwin-arm64''
   \<and> map_option platform_id (detectPlatform ''app-darwin-arm64-on-linux-amd64.tar.gz'' ''app'')
       = Some ''linux-amd64''
   \<and> ''linux-arm64'' \<in> set (map fst PLATFORM_PATTERNS)
   \<and> includes_str (basename ''app-linux-arm64-linux-aarch64.zip'') ''linux-arm64''
   \<and> map_option platform_id (detectPlatform ''app-linux-arm64-linux-aarch64.zip'' ''app'')
       = Some ''linux-aarch64''"
proof -
  have b1: "basename ''app-darwin-arm64-on-linux-amd64.tar.gz'' = ''app-darwin-arm64-on-linux-amd64.tar.gz''"
    by (simp add: basename_def)
  have b2: "basename ''app-linux-arm64-linux-aarch64.zip'' = ''app-linux-arm64-linux-aarch64.zip''"
    by (simp add: basename_def)
  have m1: "''darwin-arm64'' \<in> set (map fst PLATFORM_PATTERNS)"
    by (simp add: PLATFORM_PATTERNS_def)
  have m2: "''linux-arm64'' \<in> set (map fst PLATFORM_PATTERNS)"
    by (simp add: PLATFORM_PATTERNS_def)
  have i1: "includes_str (basename ''app-darwin-arm64-on-linux-amd64.tar.gz'') ''darwin-arm64''"
    unfolding b1 by (simp add: startsWith_def)
  have i2: "includes_str (basename ''app-linux-arm64-linux-aarch64.zip'') ''linux-arm64''"
    unfolding b2 by (simp add: startsWith_def)
  have d1: "map_option platform_id (detectPlatform ''app-darwin-arm64-on-linux-amd64.tar.gz'' ''app'')
       = Some ''linux-amd64''"
    unfolding detectPlatform_def b1
    by (simp add: PLATFORM_PATTERNS_def startsWith_def with_id_def Let_def)
  have d2: "map_option platform_id (detectPlatform ''app-linux-arm64-linux-aarch64.zip'' ''app'')
       = Some ''linux-aarch64''"
    unfolding detectPlatform_def b2
    by (simp add: PLATFORM_PATTERNS_def startsWith_def with_id_def Let_def)
  from m1 i1 d1 m2 i2 d2 show ?thesis by blast
qed

text \<open>
  C7, amended. A file name whose base name contains at least one id of the platform
  table is classified, whatever surrounds the id: the result is the entry of the first
  id, in table order, that the base name contains, with that id as \<open>platform_id\<close>; it is
  the contained id itself when the base name contains no other id of the table. The ids
  of the table are distinct, and the table lists \<open>linux-amd64-musl\<close> first, ahead of
  \<open>linux-amd64\<close>, so every name containing the musl id is classified as the musl variant,
  \<open>myapp-v1.2.3-linux-amd64-musl.tar.gz\<close> among them.
\<close>

theorem detectPlatform_known_id:
  "(PLATFORM_PATTERNS = before @ (pid, pat) # after \<and> includes_str (basename f) pid
      \<and> (\<forall>e\<in>set before. \<not> includes_str (basename f) (fst e))
     \<longrightarrow> detectPlatform f pn = Some (with_id pid pat))
   \<and> (pid \<in> set (map fst PLATFORM_PATTERNS) \<and> includes_str (basename f) pid
     \<longrightarrow> (\<exists>p. detectPlatform f pn = Some p \<and> platform_id p \<in> set (map fst PLATFORM_PATTERNS)
              \<and> includes_str (basename f) (platform_id p)))
   \<and> (CHR ''/'' \<notin> set (pre @ post)
     \<longrightarrow> (\<exists>p. detectPlatform (pre @ ''linux-amd64-musl'' @ post) pn = Some p
              \<and> platform_id p = ''linux-amd64-musl'' \<and> variant p = Some ''musl''))
   \<and> (\<exists>p. detectPlatform ''myapp-v1.2.3-linux-amd64-musl.tar.gz'' pn = Some p
          \<and> platform_id p = ''linux-amd64-musl'' \<and> variant p = Some ''musl'')
   \<and> (pid \<in> set (map fst PLATFORM_PATTERNS) \<and> includes_str (basename f) pid
     \<longrightarrow> (\<exists>bs q pt as. PLATFORM_PATTERNS = bs @ (q, pt) # as \<and> includes_str (basename f) q
              \<and> (\<forall>e\<in>set bs. \<not> includes_str (basename f) (fst e))
              \<and> detectPlatform f pn = Some (with_id q pt)))
   \<and> (pid \<in> set (map fst PLATFORM_PATTERNS) \<and> includes_str (basename f) pid
      \<and> (\<forall>q\<in>set (map fst PLATFORM_PATTERNS). includes_str (basename f) q \<longrightarrow> q = pid)
     \<longrightarrow> map_option platform_id (detectPlatform f pn) = Some pid)
   \<and> distinct (map fst PLATFORM_PATTERNS)"
proof -
  have 3: "\<exists>p. detectPlatform (pre @ ''linux-amd64-musl'' @ post) pn = Some p
              \<and> platform_id p = ''linux-amd64-musl'' \<and> variant p = Some ''musl''"
    if h: "CHR ''/'' \<notin> set (pre @ post)" for pre post
  proof -
    from h have "CHR ''/'' \<notin> set (pre @ ''linux-amd64-musl'' @ post)" by simp
    then have "basename (pre @ ''linux-amd64-musl'' @ post) = pre @ ''linux-amd64-musl'' @ post"
      by (rule basename_plain)
    then have "includes_str (basename (pre @ ''linux-amd64-musl'' @ post)) ''linux-amd64-musl''"
      unfolding includes_str_iff by metis
    then show ?thesis by (rule detectPlatform_musl)
  qed
  have "CHR ''/'' \<notin> set (''myapp-v1.2.3-'' @ ''.tar.gz'')" by simp
  from 3 [OF this] have 4: "\<exists>p. detectPlatform ''myapp-v1.2.3-linux-amd64-musl.tar.gz'' pn = Some p
          \<and> platform_id p = ''linux-amd64-musl'' \<and> variant p = Some ''musl''"
    by simp
  have 1: "PLATFORM_PATTERNS = before @ (pid, pat) # after \<and> includes_str (basename f) pid
      \<and> (\<forall>e\<in>set before. \<not> includes_str (basename f) (fst e))
     \<longrightarrow> detectPlatform f pn = Some (with_id pid pat)"
    using detectPlatform_first [of before pid pat after f pn] by blast
  have 2: "pid \<in> set (map fst PLATFORM_PATTERNS) \<and> includes_str (basename f) pid
     \<longrightarrow> (\<exists>p. detectPlatform f pn = Some p \<and> platform_id p \<in> set (map fst PLATFORM_PATTERNS)
              \<and> includes_str (basename f) (platform_id p))"
    using detectPlatform_some [of pid f pn] by blast
  have 5: "pid \<in> set (map fst PLATFORM_PATTERNS) \<and> includes_str (basename f) pid
     \<longrightarrow> (\<exists>bs q pt as. PLATFORM_PATTERNS = bs @ (q, pt) # as \<and> includes_str (basename f) q
              \<and> (\<forall>e\<in>set bs. \<not> includes_str (basename f) (fst e))
              \<and> detectPlatform f pn = Some (with_id q pt))"
    using detectPlatform_first_contained [of pid f pn] by blast
  have 6: "pid \<in> set (map fst PLATFORM_PATTERNS) \<and> includes_str (basename f) pid
      \<and> (\<forall>q\<in>set (map fst PLATFORM_PATTERNS). includes_str (basename f) q \<longrightarrow> q = pid)
     \<longrightarrow> map_option platform_id (detectPlatform f pn) = Some pid"
    using detectPlatform_only [of pid f pn] by blast
  from 3 [of pre post] have m3: "CHR ''/'' \<notin> set (pre @ post)
     \<longrightarrow> (\<exists>p. detectPlatform (pre @ ''linux-amd64-musl'' @ post) pn = Some p
              \<and> platform_id p = ''linux-amd64-musl'' \<and> variant p = Some ''musl'')" by blast
  show ?thesis
    apply (intro conjI)
          apply (rule 1)
         apply (rule 2)
        apply (rule m3)
       apply (rule 4)
      apply (rule 5)
     apply (rule 6)
    apply (rule distinct_ids)
    done
qed

theorem detectPlatform_known_id_witness:
  "PLATFORM_PATTERNS = [hd PLATFORM_PATTERNS] @ (''linux-amd64'', snd (PLATFORM_PATTERNS ! 1)) # drop 2 PLATFORM_PATTERNS
   \<and> includes_str (basename ''dist/myapp-v1.2.3-linux-amd64.tar.gz'') ''linux-amd64''
   \<and> \<not> includes_str (basename ''dist/myapp-v1.2.3-linux-amd64.tar.gz'') (fst (hd PLATFORM_PATTERNS))
   \<and> ''linux-amd64'' \<in> set (map fst PLATFORM_PATTERNS)
   \<and> filter (includes_str (basename ''dist/myapp-v1.2.3-linux-amd64.tar.gz'')) (map fst PLATFORM_PATTERNS)
       = [''linux-amd64'']
   \<and> CHR ''/'' \<notin> set (''myapp-'' @ ''.zip'')
   \<and> map_option platform_id (detectPlatform ''dist/myapp-v1.2.3-linux-amd64.tar.gz'' ''myapp'') = Some ''linux-amd64''
   \<and> map_option platform_id (detectPlatform (''myapp-'' @ ''linux-amd64-musl'' @ ''.zip'') ''myapp'') = Some ''linux-amd64-musl''"
proof -
  note t = detectPlatform_known_id [of "[hd PLATFORM_PATTERNS]" "''linux-amd64''"
      "snd (PLATFORM_PATTERNS ! 1)" "drop 2 PLATFORM_PATTERNS" "''dist/myapp-v1.2.3-linux-amd64.tar.gz''"
      "''myapp''" "''myapp-''" "''.zip''"]
  have b: "basename ''dist/myapp-v1.2.3-linux-amd64.tar.gz'' = ''myapp-v1.2.3-linux-amd64.tar.gz''"
    by (simp add: basename_def)
  have a1: "PLATFORM_PATTERNS = [hd PLATFORM_PATTERNS] @ (''linux-amd64'', snd (PLATFORM_PATTERNS ! 1)) # drop 2 PLATFORM_PATTERNS"
    by (simp add: PLATFORM_PATTERNS_def)
  have a2: "includes_str (basename ''dist/myapp-v1.2.3-linux-amd64.tar.gz'') ''linux-amd64''"
    unfolding b by (simp add: startsWith_def)
  have a3: "\<forall>e\<in>set [hd PLATFORM_PATTERNS]. \<not> includes_str (basename ''dist/myapp-v1.2.3-linux-amd64.tar.gz'') (fst e)"
    unfolding b by (simp add: PLATFORM_PATTERNS_def startsWith_def)
  have a4: "''linux-amd64'' \<in> set (map fst PLATFORM_PATTERNS)"
    by (simp add: PLATFORM_PATTERNS_def)
  have a5: "CHR ''/'' \<notin> set (''myapp-'' @ ''.zip'')" by simp
  have a6: "filter (includes_str (basename ''dist/myapp-v1.2.3-linux-amd64.tar.gz'')) (map fst PLATFORM_PATTERNS)
       = [''linux-amd64'']"
    unfolding b by (simp add: PLATFORM_PATTERNS_def startsWith_def)
  have a7: "\<forall>q\<in>set (map fst PLATFORM_PATTERNS).
      includes_str (basename ''dist/myapp-v1.2.3-linux-amd64.tar.gz'') q \<longrightarrow> q = ''linux-amd64''"
  proof (intro ballI impI)
    fix q
    assume "q \<in> set (map fst PLATFORM_PATTERNS)"
      "includes_str (basename ''dist/myapp-v1.2.3-linux-amd64.tar.gz'') q"
    then have "q \<in> set (filter (includes_str (basename ''dist/myapp-v1.2.3-linux-amd64.tar.gz''))
        (map fst PLATFORM_PATTERNS))" by simp
    then show "q = ''linux-amd64''" unfolding a6 by simp
  qed
  from t a1 a2 a3 have "detectPlatform ''dist/myapp-v1.2.3-linux-amd64.tar.gz'' ''myapp''
      = Some (with_id ''linux-amd64'' (snd (PLATFORM_PATTERNS ! 1)))" by blast
  then have c1: "map_option platform_id (detectPlatform ''dist/myapp-v1.2.3-linux-amd64.tar.gz'' ''myapp'') = Some ''linux-amd64''"
    by (simp add: platform_id_with_id)
  from t a4 a2 a7 have c1': "map_option platform_id (detectPlatform ''dist/myapp-v1.2.3-linux-amd64.tar.gz'' ''myapp'') = Some ''linux-amd64''"
    by blast
  from t a5 obtain p where "detectPlatform (''myapp-'' @ ''linux-amd64-musl'' @ ''.zip'') ''myapp'' = Some p"
      "platform_id p = ''linux-amd64-musl''" by blast
  then have c2: "map_option platform_id (detectPlatform (''myapp-'' @ ''linux-amd64-musl'' @ ''.zip'') ''myapp'') = Some ''linux-amd64-musl''"
    by simp
  have a3': "\<not> includes_str (basename ''dist/myapp-v1.2.3-linux-amd64.tar.gz'') (fst (hd PLATFORM_PATTERNS))"
    using a3 by simp
  from a1 a2 a3' a4 a6 a5 c1 c2 show ?thesis by blast
qed

section \<open>Classification by package suffix\<close>

lemma endsWith_append: "endsWith (s @ p) p"
  by (simp add: endsWith_def)

lemma endsWith_Cons: "endsWith s p \<Longrightarrow> endsWith (c # s) p"
  by (auto simp: endsWith_def Suc_diff_le)

lemma endsWith_iff: "endsWith s p \<longleftrightarrow> (\<exists>pre. s = pre @ p)"
proof
  assume "endsWith s p"
  then have "s = take (length s - length p) s @ p"
    by (metis append_take_drop_id endsWith_def)
  then show "\<exists>pre. s = pre @ p" ..
next
  assume "\<exists>pre. s = pre @ p"
  then show "endsWith s p" by (auto simp: endsWith_append)
qed

lemma deb_not_rpm: "endsWith b ''.deb'' \<Longrightarrow> \<not> endsWith b ''.rpm''"
  by (auto simp: endsWith_def)

lemma suffix_pattern_ends: "suffix_pattern lead cls ext t = Some a \<Longrightarrow> endsWith t ext"
  by (cases t) (auto simp: suffix_pattern_def Let_def endsWith_Cons split: if_splits)

lemma first_match_ends:
  "first_match (suffix_pattern lead cls ext) b = Some a \<Longrightarrow> endsWith b ext"
proof (induction b)
  case Nil
  then show ?case by (simp add: suffix_pattern_def)
next
  case (Cons c cs)
  show ?case
  proof (cases "suffix_pattern lead cls ext (c # cs)")
    case None
    with Cons.prems have "first_match (suffix_pattern lead cls ext) cs = Some a" by simp
    from Cons.IH [OF this] show ?thesis by (rule endsWith_Cons)
  next
    case (Some r)
    then show ?thesis by (rule suffix_pattern_ends)
  qed
qed

lemma suffix_pattern_at_lead:
  assumes "a \<noteq> []" "list_all cls a"
  shows "suffix_pattern lead cls ext (lead # a @ ext) = Some a"
  using assms by (simp add: suffix_pattern_def endsWith_append)

lemma suffix_pattern_before_lead:
  assumes "\<not> cls lead"
  shows "suffix_pattern lead cls ext (c # stem @ lead # a @ ext) = None"
  using assms by (simp add: suffix_pattern_def Let_def)

lemma first_match_suffix:
  assumes "a \<noteq> []" "list_all cls a" "\<not> cls lead"
  shows "first_match (suffix_pattern lead cls ext) (stem @ lead # a @ ext) = Some a"
proof (induction stem)
  case Nil
  show ?case using suffix_pattern_at_lead [OF assms(1,2), of lead ext] by simp
next
  case (Cons c stem)
  show ?case
    using suffix_pattern_before_lead [where cls = cls and lead = lead, OF assms(3), of ext c stem a]
      Cons.IH
    by simp
qed

lemma no_id_find:
  "\<not> list_ex (\<lambda>e. includes_str b (fst e)) PLATFORM_PATTERNS
     \<Longrightarrow> find (\<lambda>e. includes_str b (fst e)) PLATFORM_PATTERNS = None"
  by (auto simp: find_None_iff list_ex_iff)

lemma detectPlatform_deb:
  assumes "\<not> list_ex (\<lambda>e. includes_str (basename f) (fst e)) PLATFORM_PATTERNS"
    "basename f = stem @ ''_'' @ a @ ''.deb''" "a \<noteq> []" "list_all isLowerAlnum a"
  shows "detectPlatform f pn = arch_platform DEB_ARCH_MAP a" "getAssetType (basename f) = Deb"
proof -
  have nl: "\<not> isLowerAlnum (CHR ''_'')" by (simp add: isLowerAlnum_def lower_letters_def)
  have d: "debMatch (basename f) = Some a"
    unfolding debMatch_def assms(2) using first_match_suffix [OF assms(3,4) nl, of "''.deb''" stem]
    by simp
  have e: "endsWith (basename f) ''.deb''"
    unfolding endsWith_iff assms(2) by (rule exI [of _ "stem @ ''_'' @ a"]) simp
  then have "\<not> endsWith (basename f) ''.rpm''" by (rule deb_not_rpm)
  then have "rpmMatch (basename f) = None"
    unfolding rpmMatch_def using first_match_ends by (metis option.exhaust)
  with d no_id_find [OF assms(1)] show "detectPlatform f pn = arch_platform DEB_ARCH_MAP a"
    by (simp add: detectPlatform_def Let_def split: option.splits)
  from e show "getAssetType (basename f) = Deb" by (simp add: getAssetType_def)
qed

lemma detectPlatform_rpm:
  assumes "\<not> list_ex (\<lambda>e. includes_str (basename f) (fst e)) PLATFORM_PATTERNS"
    "basename f = stem @ ''.'' @ a @ ''.rpm''" "a \<noteq> []" "list_all isLowerAlnumUnderscore a"
  shows "detectPlatform f pn = arch_platform RPM_ARCH_MAP a" "getAssetType (basename f) = Rpm"
proof -
  have nl: "\<not> isLowerAlnumUnderscore (CHR ''.'')"
    by (simp add: isLowerAlnumUnderscore_def lower_letters_def)
  have r: "rpmMatch (basename f) = Some a"
    unfolding rpmMatch_def assms(2) using first_match_suffix [OF assms(3,4) nl, of "''.rpm''" stem]
    by simp
  have e: "endsWith (basename f) ''.rpm''"
    unfolding endsWith_iff assms(2) by (rule exI [of _ "stem @ ''.'' @ a"]) simp
  have ne: "\<not> endsWith (basename f) ''.deb''"
    using e deb_not_rpm by blast
  then have "debMatch (basename f) = None"
    unfolding debMatch_def using first_match_ends by (metis option.exhaust)
  with r no_id_find [OF assms(1)] show "detectPlatform f pn = arch_platform RPM_ARCH_MAP a"
    by (simp add: detectPlatform_def Let_def)
  from e ne show "getAssetType (basename f) = Rpm" by (simp add: getAssetType_def)
qed

lemma arch_tables:
  "map_option platform_id (arch_platform DEB_ARCH_MAP ''amd64'') = Some ''linux-amd64''"
  "map_option platform_id (arch_platform DEB_ARCH_MAP ''arm64'') = Some ''linux-aarch64''"
  "map_option platform_id (arch_platform RPM_ARCH_MAP ''x86_64'') = Some ''linux-amd64''"
  "map_option platform_id (arch_platform RPM_ARCH_MAP ''aarch64'') = Some ''linux-aarch64''"
  by (simp_all add: arch_platform_def pattern_of_def get_prop_def DEB_ARCH_MAP_def RPM_ARCH_MAP_def
      PLATFORM_PATTERNS_def with_id_def)

text \<open>
  An architecture maps to a platform only through an own entry of its table and an own
  entry of the pattern table: an inherited name as architecture gives no platform.
\<close>

lemma pattern_of_inherited_all: "list_all (\<lambda>e. pattern_of (snd e) = None) Object_prototype"
  by (simp add: Object_prototype_def pattern_of_def get_prop_def PLATFORM_PATTERNS_def)

lemma pattern_of_inherited:
  assumes "map_of Object_prototype a = Some t"
  shows "pattern_of t = None"
proof -
  from map_of_SomeD [OF assms] have "(a, t) \<in> set Object_prototype" .
  with pattern_of_inherited_all show ?thesis
    unfolding list_all_iff by force
qed

lemma arch_platform_own:
  assumes "arch_map = DEB_ARCH_MAP \<or> arch_map = RPM_ARCH_MAP" "arch_platform arch_map a = Some p"
  shows "\<exists>i pat. map_of arch_map a = Some i \<and> map_of PLATFORM_PATTERNS i = Some pat \<and> p = with_id i pat"
proof (cases "map_of arch_map a")
  case None
  with assms(2) pattern_of_inherited [of a] show ?thesis
    by (auto simp: arch_platform_def get_prop_def split: option.splits)
next
  case (Some i)
  with assms(1) have i: "i = ''linux-amd64'' \<or> i = ''linux-aarch64''"
    by (auto simp: DEB_ARCH_MAP_def RPM_ARCH_MAP_def split: if_splits)
  have own: "get_prop PLATFORM_PATTERNS ''linux-amd64'' = Own (snd (PLATFORM_PATTERNS ! 1))"
    "get_prop PLATFORM_PATTERNS ''linux-aarch64'' = Own (snd (PLATFORM_PATTERNS ! 2))"
    "map_of PLATFORM_PATTERNS ''linux-amd64'' = Some (snd (PLATFORM_PATTERNS ! 1))"
    "map_of PLATFORM_PATTERNS ''linux-aarch64'' = Some (snd (PLATFORM_PATTERNS ! 2))"
    by (simp_all add: get_prop_def PLATFORM_PATTERNS_def)
  from i show ?thesis
  proof
    assume e: "i = ''linux-amd64''"
    with Some assms(2) own show ?thesis
      by (simp add: arch_platform_def get_prop_def pattern_of_def)
  next
    assume e: "i = ''linux-aarch64''"
    with Some assms(2) own show ?thesis
      by (simp add: arch_platform_def get_prop_def pattern_of_def)
  qed
qed

lemma no_id_examples:
  "\<not> list_ex (\<lambda>e. includes_str ''myapp_1.0.0_arm64.deb'' (fst e)) PLATFORM_PATTERNS"
  "\<not> list_ex (\<lambda>e. includes_str ''myapp-1.0.0.x86_64.rpm'' (fst e)) PLATFORM_PATTERNS"
  by (simp_all add: PLATFORM_PATTERNS_def startsWith_def)

text \<open>
  C8. For a file name whose base name contains no id of the platform table, a suffix
  \<open>_arch.deb\<close> is looked up in the Debian table and a suffix \<open>.arch.rpm\<close> in the RPM table
  (with \<open>amd64\<close> and \<open>x86_64\<close> for \<open>linux-amd64\<close>, \<open>arm64\<close> and \<open>aarch64\<close> for
  \<open>linux-aarch64\<close>), and the package type is read from the extension alone:
  \<open>myapp_1.0.0_arm64.deb\<close> is \<open>linux-aarch64\<close> of type deb and \<open>myapp-1.0.0.x86_64.rpm\<close> is
  \<open>linux-amd64\<close> of type rpm. A platform found through either table comes from an own
  entry of that table and the entry of the platform table under the id it names.
\<close>

theorem detectPlatform_package_suffix:
  "(\<not> list_ex (\<lambda>e. includes_str (basename f) (fst e)) PLATFORM_PATTERNS
      \<and> basename f = stem @ ''_'' @ a @ ''.deb'' \<and> a \<noteq> [] \<and> list_all isLowerAlnum a
     \<longrightarrow> detectPlatform f pn = arch_platform DEB_ARCH_MAP a \<and> getAssetType (basename f) = Deb)
   \<and> (\<not> list_ex (\<lambda>e. includes_str (basename f) (fst e)) PLATFORM_PATTERNS
      \<and> basename f = stem @ ''.'' @ a @ ''.rpm'' \<and> a \<noteq> [] \<and> list_all isLowerAlnumUnderscore a
     \<longrightarrow> detectPlatform f pn = arch_platform RPM_ARCH_MAP a \<and> getAssetType (basename f) = Rpm)
   \<and> map_option platform_id (arch_platform DEB_ARCH_MAP ''amd64'') = Some ''linux-amd64''
   \<and> map_option platform_id (arch_platform DEB_ARCH_MAP ''arm64'') = Some ''linux-aarch64''
   \<and> map_option platform_id (arch_platform RPM_ARCH_MAP ''x86_64'') = Some ''linux-amd64''
   \<and> map_option platform_id (arch_platform RPM_ARCH_MAP ''aarch64'') = Some ''linux-aarch64''
   \<and> map_option platform_id (detectPlatform ''myapp_1.0.0_arm64.deb'' pn) = Some ''linux-aarch64''
   \<and> getAssetType ''myapp_1.0.0_arm64.deb'' = Deb
   \<and> map_option platform_id (detectPlatform ''myapp-1.0.0.x86_64.rpm'' pn) = Some ''linux-amd64''
   \<and> getAssetType ''myapp-1.0.0.x86_64.rpm'' = Rpm
   \<and> ((arch_map = DEB_ARCH_MAP \<or> arch_map = RPM_ARCH_MAP) \<and> arch_platform arch_map a = Some p
     \<longrightarrow> (\<exists>i pat. map_of arch_map a = Some i \<and> map_of PLATFORM_PATTERNS i = Some pat
                 \<and> p = with_id i pat))"
proof -
  have b1: "basename ''myapp_1.0.0_arm64.deb'' = ''myapp_1.0.0_arm64.deb''"
    and b2: "basename ''myapp-1.0.0.x86_64.rpm'' = ''myapp-1.0.0.x86_64.rpm''"
    by (simp_all add: basename_def)
  have s1: "basename ''myapp_1.0.0_arm64.deb'' = ''myapp_1.0.0'' @ ''_'' @ ''arm64'' @ ''.deb''"
    and s2: "basename ''myapp-1.0.0.x86_64.rpm'' = ''myapp-1.0.0'' @ ''.'' @ ''x86_64'' @ ''.rpm''"
    by (simp_all add: basename_def)
  have c1: "list_all isLowerAlnum ''arm64''" "''arm64'' \<noteq> []"
    and c2: "list_all isLowerAlnumUnderscore ''x86_64''" "''x86_64'' \<noteq> []"
    by (simp_all add: isLowerAlnum_def isLowerAlnumUnderscore_def lower_letters_def)
  have n1: "\<not> list_ex (\<lambda>e. includes_str (basename ''myapp_1.0.0_arm64.deb'') (fst e)) PLATFORM_PATTERNS"
    unfolding b1 by (rule no_id_examples)
  have n2: "\<not> list_ex (\<lambda>e. includes_str (basename ''myapp-1.0.0.x86_64.rpm'') (fst e)) PLATFORM_PATTERNS"
    unfolding b2 by (rule no_id_examples)
  have e1: "map_option platform_id (detectPlatform ''myapp_1.0.0_arm64.deb'' pn) = Some ''linux-aarch64''"
    using detectPlatform_deb(1) [OF n1 s1 c1(2,1), of pn] arch_tables(2) by simp
  have e2: "getAssetType ''myapp_1.0.0_arm64.deb'' = Deb"
    using detectPlatform_deb(2) [OF n1 s1 c1(2,1)] unfolding b1 .
  have e3: "map_option platform_id (detectPlatform ''myapp-1.0.0.x86_64.rpm'' pn) = Some ''linux-amd64''"
    using detectPlatform_rpm(1) [OF n2 s2 c2(2,1), of pn] arch_tables(3) by simp
  have e4: "getAssetType ''myapp-1.0.0.x86_64.rpm'' = Rpm"
    using detectPlatform_rpm(2) [OF n2 s2 c2(2,1)] unfolding b2 .
  have own: "(arch_map = DEB_ARCH_MAP \<or> arch_map = RPM_ARCH_MAP) \<and> arch_platform arch_map a = Some p
     \<longrightarrow> (\<exists>i pat. map_of arch_map a = Some i \<and> map_of PLATFORM_PATTERNS i = Some pat
                 \<and> p = with_id i pat)"
    using arch_platform_own [of arch_map a p] by blast
  from detectPlatform_deb(1) [where f = f and stem = stem and a = a and pn = pn]
    detectPlatform_deb(2) [where f = f and stem = stem and a = a]
    detectPlatform_rpm(1) [where f = f and stem = stem and a = a and pn = pn]
    detectPlatform_rpm(2) [where f = f and stem = stem and a = a]
    arch_tables e1 e2 e3 e4
  have main: "(\<not> list_ex (\<lambda>e. includes_str (basename f) (fst e)) PLATFORM_PATTERNS
      \<and> basename f = stem @ ''_'' @ a @ ''.deb'' \<and> a \<noteq> [] \<and> list_all isLowerAlnum a
     \<longrightarrow> detectPlatform f pn = arch_platform DEB_ARCH_MAP a \<and> getAssetType (basename f) = Deb)
   \<and> (\<not> list_ex (\<lambda>e. includes_str (basename f) (fst e)) PLATFORM_PATTERNS
      \<and> basename f = stem @ ''.'' @ a @ ''.rpm'' \<and> a \<noteq> [] \<and> list_all isLowerAlnumUnderscore a
     \<longrightarrow> detectPlatform f pn = arch_platform RPM_ARCH_MAP a \<and> getAssetType (basename f) = Rpm)
   \<and> map_option platform_id (arch_platform DEB_ARCH_MAP ''amd64'') = Some ''linux-amd64''
   \<and> map_option platform_id (arch_platform DEB_ARCH_MAP ''arm64'') = Some ''linux-aarch64''
   \<and> map_option platform_id (arch_platform RPM_ARCH_MAP ''x86_64'') = Some ''linux-amd64''
   \<and> map_option platform_id (arch_platform RPM_ARCH_MAP ''aarch64'') = Some ''linux-aarch64''
   \<and> map_option platform_id (detectPlatform ''myapp_1.0.0_arm64.deb'' pn) = Some ''linux-aarch64''
   \<and> getAssetType ''myapp_1.0.0_arm64.deb'' = Deb
   \<and> map_option platform_id (detectPlatform ''myapp-1.0.0.x86_64.rpm'' pn) = Some ''linux-amd64''
   \<and> getAssetType ''myapp-1.0.0.x86_64.rpm'' = Rpm"
    by blast
  from main own show ?thesis by (elim conjE, intro conjI) assumption+
qed

theorem detectPlatform_package_suffix_witness:
  "\<not> list_ex (\<lambda>e. includes_str (basename ''pkg/tool_2.1_amd64.deb'') (fst e)) PLATFORM_PATTERNS
   \<and> basename ''pkg/tool_2.1_amd64.deb'' = ''tool_2.1'' @ ''_'' @ ''amd64'' @ ''.deb''
   \<and> ''amd64'' \<noteq> [] \<and> list_all isLowerAlnum ''amd64''
   \<and> map_option platform_id (detectPlatform ''pkg/tool_2.1_amd64.deb'' ''tool'') = Some ''linux-amd64''
   \<and> getAssetType (basename ''pkg/tool_2.1_amd64.deb'') = Deb
   \<and> \<not> list_ex (\<lambda>e. includes_str (basename ''pkg/tool-2.1-1.aarch64.rpm'') (fst e)) PLATFORM_PATTERNS
   \<and> basename ''pkg/tool-2.1-1.aarch64.rpm'' = ''tool-2.1-1'' @ ''.'' @ ''aarch64'' @ ''.rpm''
   \<and> ''aarch64'' \<noteq> [] \<and> list_all isLowerAlnumUnderscore ''aarch64''
   \<and> map_option platform_id (detectPlatform ''pkg/tool-2.1-1.aarch64.rpm'' ''tool'') = Some ''linux-aarch64''
   \<and> getAssetType (basename ''pkg/tool-2.1-1.aarch64.rpm'') = Rpm
   \<and> arch_platform DEB_ARCH_MAP ''amd64'' = Some (with_id ''linux-amd64'' (snd (PLATFORM_PATTERNS ! 1)))
   \<and> map_of DEB_ARCH_MAP ''amd64'' = Some ''linux-amd64''
   \<and> map_of PLATFORM_PATTERNS ''linux-amd64'' = Some (snd (PLATFORM_PATTERNS ! 1))"
proof -
  note t1 = detectPlatform_package_suffix [where f = "''pkg/tool_2.1_amd64.deb''"
      and stem = "''tool_2.1''" and a = "''amd64''" and pn = "''tool''" and arch_map = DEB_ARCH_MAP
      and p = "with_id ''linux-amd64'' (snd (PLATFORM_PATTERNS ! 1))"]
  note t2 = detectPlatform_package_suffix [where f = "''pkg/tool-2.1-1.aarch64.rpm''"
      and stem = "''tool-2.1-1''" and a = "''aarch64''" and pn = "''tool''"]
  have o1: "arch_platform DEB_ARCH_MAP ''amd64'' = Some (with_id ''linux-amd64'' (snd (PLATFORM_PATTERNS ! 1)))"
    by (simp add: arch_platform_def pattern_of_def get_prop_def DEB_ARCH_MAP_def PLATFORM_PATTERNS_def)
  from t1 o1 obtain i pat where ip: "map_of DEB_ARCH_MAP ''amd64'' = Some i"
    "map_of PLATFORM_PATTERNS i = Some pat"
    "with_id ''linux-amd64'' (snd (PLATFORM_PATTERNS ! 1)) = with_id i pat" by blast
  from ip(3) have "platform_id (with_id ''linux-amd64'' (snd (PLATFORM_PATTERNS ! 1))) = platform_id (with_id i pat)"
    by (rule arg_cong)
  then have i: "i = ''linux-amd64''" unfolding platform_id_with_id by (rule sym)
  from ip(1) have o2: "map_of DEB_ARCH_MAP ''amd64'' = Some ''linux-amd64''" unfolding i .
  have o3: "map_of PLATFORM_PATTERNS ''linux-amd64'' = Some (snd (PLATFORM_PATTERNS ! 1))"
    by (simp add: PLATFORM_PATTERNS_def)
  have b1: "basename ''pkg/tool_2.1_amd64.deb'' = ''tool_2.1_amd64.deb''"
    and b2: "basename ''pkg/tool-2.1-1.aarch64.rpm'' = ''tool-2.1-1.aarch64.rpm''"
    by (simp_all add: basename_def)
  have n1: "\<not> list_ex (\<lambda>e. includes_str (basename ''pkg/tool_2.1_amd64.deb'') (fst e)) PLATFORM_PATTERNS"
    unfolding b1 by (simp add: PLATFORM_PATTERNS_def startsWith_def)
  have n2: "\<not> list_ex (\<lambda>e. includes_str (basename ''pkg/tool-2.1-1.aarch64.rpm'') (fst e)) PLATFORM_PATTERNS"
    unfolding b2 by (simp add: PLATFORM_PATTERNS_def startsWith_def)
  have s1: "basename ''pkg/tool_2.1_amd64.deb'' = ''tool_2.1'' @ ''_'' @ ''amd64'' @ ''.deb''"
    unfolding b1 by simp
  have s2: "basename ''pkg/tool-2.1-1.aarch64.rpm'' = ''tool-2.1-1'' @ ''.'' @ ''aarch64'' @ ''.rpm''"
    unfolding b2 by simp
  have c1: "''amd64'' \<noteq> []" "list_all isLowerAlnum ''amd64''"
    and c2: "''aarch64'' \<noteq> []" "list_all isLowerAlnumUnderscore ''aarch64''"
    by (simp_all add: isLowerAlnum_def isLowerAlnumUnderscore_def lower_letters_def)
  from t1 n1 s1 c1 have d1: "detectPlatform ''pkg/tool_2.1_amd64.deb'' ''tool'' = arch_platform DEB_ARCH_MAP ''amd64''"
    and g1: "getAssetType (basename ''pkg/tool_2.1_amd64.deb'') = Deb" by blast+
  from t2 n2 s2 c2 have d2: "detectPlatform ''pkg/tool-2.1-1.aarch64.rpm'' ''tool'' = arch_platform RPM_ARCH_MAP ''aarch64''"
    and g2: "getAssetType (basename ''pkg/tool-2.1-1.aarch64.rpm'') = Rpm" by blast+
  from t1 have m1: "map_option platform_id (arch_platform DEB_ARCH_MAP ''amd64'') = Some ''linux-amd64''" by blast
  from t2 have m2: "map_option platform_id (arch_platform RPM_ARCH_MAP ''aarch64'') = Some ''linux-aarch64''" by blast
  from n1 s1 c1 g1 n2 s2 c2 g2 m1 m2 o1 o2 o3 show ?thesis unfolding d1 d2 by blast
qed

section \<open>Display order of the discovered assets\<close>

lemma insert_by_rank: "insert_by compare_assets x ys = insort_key order_rank x ys"
  by (induction ys) (simp_all add: compare_assets_def)

lemma sort_by_rank: "sort_by compare_assets xs = sort_key order_rank xs"
proof -
  have "insert_by compare_assets = insort_key order_rank"
    by (intro ext) (rule insert_by_rank)
  then show ?thesis by (simp add: sort_by_def sort_key_def)
qed

lemma indexOf_missing: "indexOf xs x = -1 \<longleftrightarrow> x \<notin> set xs"
proof (induction xs)
  case Nil
  show ?case by simp
next
  case (Cons y ys)
  have "0 \<le> indexOf zs x \<or> indexOf zs x = -1" for zs
    by (induction zs) (auto simp: Let_def)
  from this [of ys] Cons show ?case by (auto simp: Let_def)
qed

lemma indexOf_range: "x \<in> set xs \<Longrightarrow> 0 \<le> indexOf xs x \<and> indexOf xs x < int (length xs) \<and> xs ! nat (indexOf xs x) = x"
proof (induction xs)
  case Nil
  then show ?case by simp
next
  case (Cons y ys)
  show ?case
  proof (cases "y = x")
    case True
    then show ?thesis by simp
  next
    case False
    with Cons.prems have m: "x \<in> set ys" by simp
    from Cons.IH [OF m] have i: "0 \<le> indexOf ys x" "indexOf ys x < int (length ys)" "ys ! nat (indexOf ys x) = x"
      by auto
    from i(1) have "indexOf ys x \<noteq> -1" by simp
    with False i show ?thesis by (simp add: Let_def nat_add_distrib)
  qed
qed

lemma order_rank_unlisted: "order_rank a = 999 \<longleftrightarrow> platform_id (platform a) \<notin> set platformOrder"
proof (cases "platform_id (platform a) \<in> set platformOrder")
  case True
  from indexOf_range [OF True] have "indexOf platformOrder (platform_id (platform a)) < 6"
    "0 \<le> indexOf platformOrder (platform_id (platform a))"
    by (simp_all add: platformOrder_def)
  with True show ?thesis by (simp add: order_rank_def Let_def)
next
  case False
  then have "indexOf platformOrder (platform_id (platform a)) = -1"
    by (simp add: indexOf_missing)
  with False show ?thesis by (simp add: order_rank_def Let_def)
qed

lemma order_rank_listed:
  assumes "platform_id (platform a) \<in> set platformOrder"
  shows "0 \<le> order_rank a \<and> order_rank a < 6 \<and> platformOrder ! nat (order_rank a) = platform_id (platform a)"
proof -
  from indexOf_range [OF assms] have i: "0 \<le> indexOf platformOrder (platform_id (platform a))"
    "indexOf platformOrder (platform_id (platform a)) < 6"
    "platformOrder ! nat (indexOf platformOrder (platform_id (platform a))) = platform_id (platform a)"
    by (simp_all add: platformOrder_def)
  from i(1) have "indexOf platformOrder (platform_id (platform a)) \<noteq> -1" by simp
  with i show ?thesis by (simp add: order_rank_def Let_def)
qed

lemma order_rank_bound: "order_rank a < 999 \<longleftrightarrow> platform_id (platform a) \<in> set platformOrder"
proof (cases "platform_id (platform a) \<in> set platformOrder")
  case True
  with order_rank_listed [OF True] show ?thesis by simp
next
  case False
  with order_rank_unlisted [of a] show ?thesis by simp
qed

lemma sorted_split:
  "sorted (map f xs) \<Longrightarrow> xs = filter (\<lambda>x. f x < (c::int)) xs @ filter (\<lambda>x. \<not> f x < c) xs"
proof (induction xs)
  case Nil
  show ?case by simp
next
  case (Cons x xs)
  from Cons.prems have s: "sorted (map f xs)" and le: "\<forall>y\<in>set xs. f x \<le> f y" by auto
  show ?case
  proof (cases "f x < c")
    case True
    with Cons.IH [OF s] show ?thesis by simp
  next
    case False
    with le have "\<forall>y\<in>set xs. \<not> f y < c" by auto
    then have "filter (\<lambda>x. f x < c) xs = []" "filter (\<lambda>x. \<not> f x < c) xs = xs"
      by (simp_all add: filter_empty_conv filter_id_conv)
    with False show ?thesis by simp
  qed
qed

text \<open>
  C9. The assets returned by \<open>discoverAssets\<close> are the classified files, each exactly
  once, sorted by their rank in the display order \<open>linux-amd64\<close>, \<open>linux-amd64-musl\<close>,
  \<open>linux-aarch64\<close>, \<open>darwin-arm64\<close>, \<open>darwin-amd64\<close>, \<open>windows-amd64\<close>: a listed id has its
  position as rank and an unlisted one the rank 999. The result is its listed assets
  followed by the unlisted ones, and these, like the assets of any one rank, stand in
  their discovery order.
\<close>

theorem discoverAssets_display_order:
  "sorted (map order_rank (fst (discoverAssets w dir pn)))
   \<and> mset (fst (discoverAssets w dir pn)) = mset (fst (classified w dir pn))
   \<and> filter (\<lambda>a. order_rank a = k) (fst (discoverAssets w dir pn))
       = filter (\<lambda>a. order_rank a = k) (fst (classified w dir pn))
   \<and> fst (discoverAssets w dir pn)
       = filter listed (fst (discoverAssets w dir pn))
         @ filter (\<lambda>a. \<not> listed a) (fst (classified w dir pn))
   \<and> (listed a \<longrightarrow> 0 \<le> order_rank a \<and> order_rank a < 6
                   \<and> platformOrder ! nat (order_rank a) = platform_id (platform a))
   \<and> (\<not> listed a \<longrightarrow> order_rank a = 999)
   \<and> platformOrder = [''linux-amd64'', ''linux-amd64-musl'', ''linux-aarch64'', ''darwin-arm64'',
                      ''darwin-amd64'', ''windows-amd64'']
   \<and> snd (discoverAssets w dir pn) = snd (classified w dir pn)"
proof -
  let ?out = "fst (discoverAssets w dir pn)" and ?in = "fst (classified w dir pn)"
  have out: "?out = sort_key order_rank ?in"
    by (simp add: discoverAssets_def Let_def sort_by_rank)
  have 1: "sorted (map order_rank ?out)" unfolding out by simp
  have 2: "mset ?out = mset ?in" unfolding out by simp
  have 3: "filter (\<lambda>a. order_rank a = k) ?out = filter (\<lambda>a. order_rank a = k) ?in"
    unfolding out by (rule sort_key_stable)
  have l: "listed = (\<lambda>a. order_rank a < 999)"
    by (intro ext) (simp add: listed_def order_rank_bound)
  have u: "(\<lambda>a. \<not> listed a) = (\<lambda>a. order_rank a = 999)"
    by (intro ext) (simp add: listed_def order_rank_unlisted)
  have "?out = filter (\<lambda>a. order_rank a < 999) ?out @ filter (\<lambda>a. \<not> order_rank a < 999) ?out"
    by (rule sorted_split [OF 1])
  then have "?out = filter listed ?out @ filter (\<lambda>a. \<not> listed a) ?out"
    unfolding l .
  also have "filter (\<lambda>a. \<not> listed a) ?out = filter (\<lambda>a. \<not> listed a) ?in"
    unfolding u out by (rule sort_key_stable)
  finally have 4: "?out = filter listed ?out @ filter (\<lambda>a. \<not> listed a) ?in" .
  have 5: "listed a \<longrightarrow> 0 \<le> order_rank a \<and> order_rank a < 6
                   \<and> platformOrder ! nat (order_rank a) = platform_id (platform a)"
    using order_rank_listed [of a] by (simp add: listed_def)
  have 6: "\<not> listed a \<longrightarrow> order_rank a = 999"
    by (simp add: listed_def order_rank_unlisted)
  have 7: "snd (discoverAssets w dir pn) = snd (classified w dir pn)"
    by (simp add: discoverAssets_def Let_def)
  from 1 2 3 4 5 6 7 platformOrder_def show ?thesis by blast
qed

lemma release_dir_run:
  "map (\<lambda>a. (asset_filename a, platform_id (platform a))) (fst (discoverAssets release_dir ''dist'' ''app''))
     = [(''app-linux-amd64.tar.gz'', ''linux-amd64''), (''app-darwin-arm64.tar.gz'', ''darwin-arm64''),
        (''app-windows-aarch64.zip'', ''windows-aarch64''), (''app-linux-arm64.tar.gz'', ''linux-arm64'')]"
  by code_simp

lemma release_dir_ends:
  "listed (hd (fst (discoverAssets release_dir ''dist'' ''app'')))"
  "\<not> listed (last (fst (discoverAssets release_dir ''dist'' ''app'')))"
  "map asset_filename (filter (\<lambda>a. \<not> listed a) (fst (classified release_dir ''dist'' ''app'')))
     = [''app-windows-aarch64.zip'', ''app-linux-arm64.tar.gz'']"
  by code_simp+

theorem discoverAssets_display_order_witness:
  "listed (hd (fst (discoverAssets release_dir ''dist'' ''app'')))
   \<and> 0 \<le> order_rank (hd (fst (discoverAssets release_dir ''dist'' ''app'')))
   \<and> order_rank (hd (fst (discoverAssets release_dir ''dist'' ''app''))) < 6
   \<and> \<not> listed (last (fst (discoverAssets release_dir ''dist'' ''app'')))
   \<and> order_rank (last (fst (discoverAssets release_dir ''dist'' ''app''))) = 999
   \<and> sorted (map order_rank (fst (discoverAssets release_dir ''dist'' ''app'')))
   \<and> map (\<lambda>a. (asset_filename a, platform_id (platform a))) (fst (discoverAssets release_dir ''dist'' ''app''))
     = [(''app-linux-amd64.tar.gz'', ''linux-amd64''), (''app-darwin-arm64.tar.gz'', ''darwin-arm64''),
        (''app-windows-aarch64.zip'', ''windows-aarch64''), (''app-linux-arm64.tar.gz'', ''linux-arm64'')]"
proof -
  let ?out = "fst (discoverAssets release_dir ''dist'' ''app'')"
  note t1 = discoverAssets_display_order [of release_dir "''dist''" "''app''" 0 "hd ?out"]
  note t2 = discoverAssets_display_order [of release_dir "''dist''" "''app''" 0 "last ?out"]
  from t1 release_dir_ends(1) have a: "0 \<le> order_rank (hd ?out)" "order_rank (hd ?out) < 6"
    by blast+
  from t2 release_dir_ends(2) have b: "order_rank (last ?out) = 999" by blast
  from t1 have c: "sorted (map order_rank ?out)" by blast
  from a b c release_dir_ends(1,2) release_dir_run show ?thesis by blast
qed

end
